theory Spec2Isabelle
  imports
    Complex_Main
    "HOL-Library.AList"
    "HOL-Library.Sublist"
    "HOL-Library.Monad_Syntax"
begin

section \<open>Data model of the stress tester\<close>

text \<open>
  The embedding follows \<^verbatim>\<open>src/main.py\<close>. Python's \<^verbatim>\<open>int\<close> is \<^typ>\<open>int\<close>. A Python
  \<^verbatim>\<open>float\<close> is modelled as the real number it denotes, with exact arithmetic, where
  no outcome of the code depends on the rounding; the ramp computation of
  \<^verbatim>\<open>ramp_up_test\<close> and the trend analysis, whose results depend on the rounding of
  binary64 arithmetic, are modelled with that rounding written out (sections on the
  ramp and on binary64 arithmetic).
  A Python \<^verbatim>\<open>str\<close> that comes from outside the program (the text of an exception) is
  the list of its code points; the string literals of the program are ASCII and are
  Isabelle strings. A \<^verbatim>\<open>dict\<close> is an association list in insertion order, the order
  Python keeps and prints. A call that can raise returns an \<^typ>\<open>'a option\<close>, with
  \<^term>\<open>None\<close> for the exception.
\<close>

type_synonym pystr = "nat list"

record TestResult =
  status_code :: int
  response_time :: real
  content_length :: int
  timestamp :: real
  thread_id :: int
  error :: pystr
  ttfb :: real

record TestReport =
  total_requests :: int
  successful_requests :: int
  failed_requests :: int
  response_times :: "real list"
  status_codes :: "(int \<times> int) list"
  errors :: "pystr list"
  start_time :: real
  end_time :: real
  requests_per_second :: real
  results :: "TestResult list"
  peak_rps :: real
  slowest_requests :: "TestResult list"

text \<open>\<^verbatim>\<open>TestReport()\<close>: every field at its default; \<^verbatim>\<open>start_time\<close> defaults to the clock
  reading \<open>now\<close> at construction.\<close>

definition TestReport_init :: "real \<Rightarrow> TestReport" where
  "TestReport_init now =
     \<lparr>total_requests = 0, successful_requests = 0, failed_requests = 0,
      response_times = [], status_codes = [], errors = [],
      start_time = now, end_time = 0, requests_per_second = 0,
      results = [], peak_rps = 0, slowest_requests = []\<rparr>"

section \<open>The result aggregator\<close>

text \<open>\<^verbatim>\<open>StressTester._update_report\<close> (lines 409-424). The three assignments of lines
  411-413, then the branch on the status code, then the status-code count.\<close>

definition update_report :: "TestReport \<Rightarrow> TestResult \<Rightarrow> TestReport" where
  "update_report report result =
     (let report = report\<lparr>total_requests := total_requests report + 1\<rparr>;
          report = report\<lparr>response_times := response_times report @ [response_time result]\<rparr>;
          report = report\<lparr>results := results report @ [result]\<rparr>;
          report =
            (if status_code result = 0
             then report\<lparr>failed_requests := failed_requests report + 1,
                          errors := errors report @ [error result]\<rparr>
             else report\<lparr>successful_requests := successful_requests report + 1\<rparr>)
      in (case map_of (status_codes report) (status_code result) of
            Some c \<Rightarrow>
              report\<lparr>status_codes :=
                AList.update (status_code result) (c + 1) (status_codes report)\<rparr>
          | None \<Rightarrow>
              report\<lparr>status_codes :=
                AList.update (status_code result) 1 (status_codes report)\<rparr>))"

text \<open>The drivers call \<^verbatim>\<open>_update_report\<close> once per outcome, in completion order.\<close>

definition record_all :: "TestReport \<Rightarrow> TestResult list \<Rightarrow> TestReport" where
  "record_all report outcomes = foldl update_report report outcomes"

text \<open>The invariant of the data model, as a predicate on reports.\<close>

definition report_inv :: "TestReport \<Rightarrow> bool" where
  "report_inv r \<longleftrightarrow>
     total_requests r = successful_requests r + failed_requests r \<and>
     total_requests r = int (length (response_times r)) \<and>
     total_requests r = int (length (results r))"

text \<open>The occurrence counts of the status-code mapping, summed, and the count under one
  key (\<open>0\<close> for a key that is absent).\<close>

definition count_sum :: "(int \<times> int) list \<Rightarrow> int" where
  "count_sum d = sum_list (map snd d)"

definition count_of :: "(int \<times> int) list \<Rightarrow> int \<Rightarrow> int" where
  "count_of d k = (case map_of d k of Some c \<Rightarrow> c | None \<Rightarrow> 0)"

section \<open>The grade\<close>

text \<open>\<^verbatim>\<open>PerformanceAnalyzer.calculate_performance_grade\<close> (lines 56-107). The score is a
  Python \<^verbatim>\<open>int\<close>. The literal \<^verbatim>\<open>0.2\<close> is not a binary64 number, but no binary64 number
  lies between it and the nearest one above it, so a measured value is below the one
  exactly when it is below the other; the remaining literals are exact.\<close>

definition calculate_performance_grade :: "real \<Rightarrow> real \<Rightarrow> real \<Rightarrow> string" where
  "calculate_performance_grade avg_response_time success_rate rps =
     (let score = (0::int);
          score =
            (if avg_response_time < 0.2 then score + 40
             else if avg_response_time < 0.5 then score + 35
             else if avg_response_time < 1.0 then score + 25
             else if avg_response_time < 2.0 then score + 15
             else score + 5);
          score =
            (if success_rate \<ge> 99.5 then score + 40
             else if success_rate \<ge> 95 then score + 35
             else if success_rate \<ge> 90 then score + 25
             else if success_rate \<ge> 75 then score + 15
             else score + 5);
          score =
            (if rps \<ge> 50 then score + 20
             else if rps \<ge> 20 then score + 18
             else if rps \<ge> 10 then score + 15
             else if rps \<ge> 5 then score + 10
             else score + 5)
      in if score \<ge> 90 then ''A+ (Excellent)''
         else if score \<ge> 80 then ''A (Very Good)''
         else if score \<ge> 70 then ''B (Good)''
         else if score \<ge> 60 then ''C (Fair)''
         else if score \<ge> 50 then ''D (Poor)''
         else ''F (Critical)'')"

text \<open>The specification's reading of the grade: three components, each a table of bands
  that are closed at their lower bound, and the letter of their sum.\<close>

datatype grade = A_plus | A | B | C | D | F

definition spec_response_time_points :: "real \<Rightarrow> int" where
  "spec_response_time_points t =
     (if t < 0.2 then 40
      else if 0.2 \<le> t \<and> t < 0.5 then 35
      else if 0.5 \<le> t \<and> t < 1.0 then 25
      else if 1.0 \<le> t \<and> t < 2.0 then 15
      else 5)"

definition spec_success_rate_points :: "real \<Rightarrow> int" where
  "spec_success_rate_points s =
     (if 99.5 \<le> s then 40
      else if 95 \<le> s \<and> s < 99.5 then 35
      else if 90 \<le> s \<and> s < 95 then 25
      else if 75 \<le> s \<and> s < 90 then 15
      else 5)"

definition spec_throughput_points :: "real \<Rightarrow> int" where
  "spec_throughput_points r =
     (if 50 \<le> r then 20
      else if 20 \<le> r \<and> r < 50 then 18
      else if 10 \<le> r \<and> r < 20 then 15
      else if 5 \<le> r \<and> r < 10 then 10
      else 5)"

definition spec_letter :: "int \<Rightarrow> grade" where
  "spec_letter score =
     (if 90 \<le> score then A_plus
      else if 80 \<le> score \<and> score < 90 then A
      else if 70 \<le> score \<and> score < 80 then B
      else if 60 \<le> score \<and> score < 70 then C
      else if 50 \<le> score \<and> score < 60 then D
      else F)"

text \<open>The letter a label of the code carries: the text before its first blank.\<close>

definition grade_of_label :: "string \<Rightarrow> grade option" where
  "grade_of_label label =
     (let letter = takeWhile (\<lambda>c. c \<noteq> CHR '' '') label
      in if letter = ''A+'' then Some A_plus
         else if letter = ''A'' then Some A
         else if letter = ''B'' then Some B
         else if letter = ''C'' then Some C
         else if letter = ''D'' then Some D
         else if letter = ''F'' then Some F
         else None)"

text \<open>The ordinal order of the grades: \<open>A+ > A > B > C > D > F\<close>.\<close>

fun grade_rank :: "grade \<Rightarrow> nat" where
  "grade_rank A_plus = 5"
| "grade_rank A = 4"
| "grade_rank B = 3"
| "grade_rank C = 2"
| "grade_rank D = 1"
| "grade_rank F = 0"

text \<open>The label the code returns for each letter.\<close>

definition label_of :: "grade \<Rightarrow> string" where
  "label_of g =
     (case g of
        A_plus \<Rightarrow> ''A+ (Excellent)''
      | A \<Rightarrow> ''A (Very Good)''
      | B \<Rightarrow> ''B (Good)''
      | C \<Rightarrow> ''C (Fair)''
      | D \<Rightarrow> ''D (Poor)''
      | F \<Rightarrow> ''F (Critical)'')"

section \<open>Finalisation\<close>

text \<open>\<^verbatim>\<open>sorted(xs, key=..., reverse=True)\<close>. CPython's list sort is stable, and with
  \<^verbatim>\<open>reverse=True\<close> it reverses the list, sorts it in ascending order of the key and
  reverses the result, so that elements with equal keys keep their order. A stable sort
  has one result, so insertion sort stands for it.\<close>

definition sorted_reverse :: "('a \<Rightarrow> real) \<Rightarrow> 'a list \<Rightarrow> 'a list" where
  "sorted_reverse key xs = rev (sort_key key (rev xs))"

text \<open>\<^verbatim>\<open>StressTester._finalize_report\<close> (lines 426-433). It reads \<^verbatim>\<open>end_time\<close> and does
  not assign it.\<close>

definition finalize_report :: "TestReport \<Rightarrow> TestReport" where
  "finalize_report report =
     (let total_time = end_time report - start_time report;
          report = report\<lparr>requests_per_second :=
            (if total_time > 0 then of_int (total_requests report) / total_time else 0)\<rparr>;
          sorted_results = sorted_reverse response_time (results report)
      in report\<lparr>slowest_requests := take 5 sorted_results\<rparr>)"

text \<open>The last two statements of each driver (lines 341-342, 363-364 and 405-406):
  \<^verbatim>\<open>report.end_time = time.time()\<close>, with \<open>now\<close> the clock reading, and then
  \<^verbatim>\<open>self._finalize_report(report)\<close>.\<close>

definition finish_run :: "real \<Rightarrow> TestReport \<Rightarrow> TestReport" where
  "finish_run now report = finalize_report (report\<lparr>end_time := now\<rparr>)"

text \<open>An outcome as \<^verbatim>\<open>make_request\<close> builds it for a response with status \<open>code\<close>,
  latency \<open>rt\<close> and start timestamp \<open>ts\<close>; the fields no property reads are fixed.\<close>

definition outcome :: "int \<Rightarrow> real \<Rightarrow> real \<Rightarrow> TestResult" where
  "outcome code rt ts =
     \<lparr>status_code = code, response_time = rt, content_length = 0, timestamp = ts,
      thread_id = 0, error = [], ttfb = rt\<rparr>"

section \<open>Library functions the analyzer calls\<close>

text \<open>True division raises \<^verbatim>\<open>ZeroDivisionError\<close> on a zero divisor.\<close>

definition py_div :: "real \<Rightarrow> real \<Rightarrow> real option" where
  "py_div a b = (if b = 0 then None else Some (a / b))"

text \<open>\<^verbatim>\<open>statistics.mean\<close> raises \<^verbatim>\<open>StatisticsError\<close> on an empty list, and
  \<^verbatim>\<open>statistics.stdev\<close>, the sample standard deviation, on fewer than two values.\<close>

definition mean :: "real list \<Rightarrow> real option" where
  "mean xs = (if xs = [] then None else Some (sum_list xs / real (length xs)))"

definition stdev :: "real list \<Rightarrow> real option" where
  "stdev xs =
     (if length xs < 2 then None
      else let m = sum_list xs / real (length xs)
           in Some (sqrt (sum_list (map (\<lambda>x. (x - m)\<^sup>2) xs) / real (length xs - 1))))"

text \<open>\<^verbatim>\<open>int(x)\<close> on a float truncates towards zero.\<close>

definition py_int :: "real \<Rightarrow> int" where
  "py_int x = (if 0 \<le> x then \<lfloor>x\<rfloor> else \<lceil>x\<rceil>)"

section \<open>The aggregator's success rate\<close>

text \<open>The aggregator's success rate, as lines 183, 227 and 442 compute it:
  \<^verbatim>\<open>(report.successful_requests / report.total_requests) * 100\<close>.\<close>

definition success_rate_of :: "TestReport \<Rightarrow> real option" where
  "success_rate_of report =
     do { q \<leftarrow> py_div (of_int (successful_requests report)) (of_int (total_requests report));
          Some (q * 100) }"

section \<open>Rendering values as text\<close>

text \<open>A literal of the program as a Python string.\<close>

definition lit :: "string \<Rightarrow> pystr" where
  "lit s = map of_char s"

text \<open>\<^verbatim>\<open>str(n)\<close> for an \<^verbatim>\<open>int\<close>: decimal digits, with a minus sign for a negative number.\<close>

fun str_nat :: "nat \<Rightarrow> string" where
  "str_nat n =
     (if n < 10 then [char_of (of_char CHR ''0'' + n)]
      else str_nat (n div 10) @ [char_of (of_char CHR ''0'' + n mod 10)])"

declare str_nat.simps [simp del]

definition str_int :: "int \<Rightarrow> string" where
  "str_int i = (if i < 0 then CHR ''-'' # str_nat (nat (- i)) else str_nat (nat i))"

text \<open>The \<open>w\<close> lowercase hexadecimal digits of \<open>n\<close>, as \<^verbatim>\<open>repr\<close> writes them in an
  escape.\<close>

definition hex_digit :: "nat \<Rightarrow> nat" where
  "hex_digit d = (if d < 10 then of_char CHR ''0'' + d else of_char CHR ''a'' + (d - 10))"

fun hex_digits :: "nat \<Rightarrow> nat \<Rightarrow> pystr" where
  "hex_digits 0 n = []"
| "hex_digits (Suc w) n = hex_digits w (n div 16) @ [hex_digit (n mod 16)]"

text \<open>\<^verbatim>\<open>repr\<close> of a \<^verbatim>\<open>str\<close>, as CPython's \<^verbatim>\<open>unicode_repr\<close> computes it, one code point
  at a time. Whether a code point beyond ASCII is printable is a table of the
  interpreter's Unicode database, not of this repository: it is the parameter
  \<open>printable\<close>.\<close>

definition repr_char :: "(nat \<Rightarrow> bool) \<Rightarrow> nat \<Rightarrow> nat \<Rightarrow> pystr" where
  "repr_char printable quote ch =
     (if ch = quote \<or> ch = of_char CHR 0x5C then [of_char CHR 0x5C, ch]
      else if ch = 9 then lit [CHR 0x5C, CHR ''t'']
      else if ch = 10 then lit [CHR 0x5C, CHR ''n'']
      else if ch = 13 then lit [CHR 0x5C, CHR ''r'']
      else if ch < 32 \<or> ch = 127 then lit [CHR 0x5C, CHR ''x''] @ hex_digits 2 ch
      else if ch < 127 then [ch]
      else if printable ch then [ch]
      else if ch \<le> 255 then lit [CHR 0x5C, CHR ''x''] @ hex_digits 2 ch
      else if ch \<le> 65535 then lit [CHR 0x5C, CHR ''u''] @ hex_digits 4 ch
      else lit [CHR 0x5C, CHR ''U''] @ hex_digits 8 ch)"

text \<open>The quote is the double quote when the string has a single quote and no double
  quote, and the single quote otherwise.\<close>

definition repr_str :: "(nat \<Rightarrow> bool) \<Rightarrow> pystr \<Rightarrow> pystr" where
  "repr_str printable s =
     (let quote =
            (if of_char CHR 0x27 \<in> set s \<and> of_char CHR 0x22 \<notin> set s
             then of_char CHR 0x22 else of_char CHR 0x27)
      in [quote] @ concat (map (repr_char printable quote) s) @ [quote])"

text \<open>\<^verbatim>\<open>sep.join(parts)\<close>.\<close>

fun join :: "'a list \<Rightarrow> 'a list list \<Rightarrow> 'a list" where
  "join sep [] = []"
| "join sep [p] = p"
| "join sep (p # q # ps) = p @ sep @ join sep (q # ps)"

text \<open>\<^verbatim>\<open>str(d)\<close> for a \<^verbatim>\<open>dict\<close> from strings to integers: the items in insertion
  order, each \<^verbatim>\<open>repr(key): repr(value)\<close>, separated by a comma and a blank, in braces.\<close>

definition str_item :: "(nat \<Rightarrow> bool) \<Rightarrow> pystr \<times> int \<Rightarrow> pystr" where
  "str_item printable item =
     repr_str printable (fst item) @ lit '': '' @ lit (str_int (snd item))"

definition str_dict :: "(nat \<Rightarrow> bool) \<Rightarrow> (pystr \<times> int) list \<Rightarrow> pystr" where
  "str_dict printable d =
     lit ''{'' @ join (lit '', '') (map (str_item printable) d) @ lit ''}''"

section \<open>Bottlenecks and capacity\<close>

text \<open>The loop of lines 208-210: \<^verbatim>\<open>error_types[error] = error_types.get(error, 0) + 1\<close>.\<close>

definition count_error :: "(pystr \<times> int) list \<Rightarrow> pystr \<Rightarrow> (pystr \<times> int) list" where
  "count_error error_types e =
     AList.update e ((case map_of error_types e of Some c \<Rightarrow> c | None \<Rightarrow> 0) + 1) error_types"

text \<open>\<^verbatim>\<open>PerformanceAnalyzer.identify_bottlenecks\<close> (lines 175-218). The test
  \<^verbatim>\<open>"Connection" in str(error_types)\<close> is a substring test on the rendered dictionary.\<close>

definition identify_bottlenecks :: "(nat \<Rightarrow> bool) \<Rightarrow> TestReport \<Rightarrow> string list option" where
  "identify_bottlenecks printable report =
     (let bottlenecks = [] in
      if response_times report = [] then Some [''No response data available'']
      else do {
        avg_response_time \<leftarrow> mean (response_times report);
        success_rate \<leftarrow> success_rate_of report;
        let bottlenecks =
          (if avg_response_time > 2.0
           then bottlenecks @ [''HIGH_RESPONSE_TIME: Server is very slow (>2s average)'']
           else if avg_response_time > 1.0
           then bottlenecks @
             [''MODERATE_RESPONSE_TIME: Server response time is concerning (>1s average)'']
           else bottlenecks);
        let bottlenecks =
          (if success_rate < 90
           then bottlenecks @
             [''LOW_SUCCESS_RATE: High failure rate indicates server overload'']
           else if success_rate < 95
           then bottlenecks @ [''MODERATE_FAILURES: Some requests failing under load'']
           else bottlenecks);
        let bottlenecks =
          (if requests_per_second report < 5
           then bottlenecks @
             [''LOW_THROUGHPUT: Server can't handle concurrent requests efficiently'']
           else bottlenecks);
        bottlenecks \<leftarrow>
          (if length (response_times report) > 1
           then do {
             std_dev \<leftarrow> stdev (response_times report);
             Some (if std_dev > avg_response_time * 0.5
                   then bottlenecks @
                     [''HIGH_VARIABILITY: Response times are inconsistent'']
                   else bottlenecks) }
           else Some bottlenecks);
        let error_types = foldl count_error [] (errors report);
        let bottlenecks =
          (if sublist (lit ''Connection'') (str_dict printable error_types)
           then bottlenecks @ [''CONNECTION_ISSUES: Server rejecting connections'']
           else bottlenecks);
        let bottlenecks =
          (if bottlenecks = []
           then bottlenecks @
             [''NO_MAJOR_BOTTLENECKS: System performing within acceptable limits'']
           else bottlenecks);
        Some bottlenecks })"

text \<open>The values of the dictionary that \<^verbatim>\<open>capacity_recommendations\<close> returns: a string, a
  list of strings, or a dictionary from strings to strings.\<close>

datatype pyval = Str string | StrList "string list" | StrDict "(string \<times> string) list"

text \<open>\<^verbatim>\<open>PerformanceAnalyzer.capacity_recommendations\<close> (lines 221-273).\<close>

definition capacity_recommendations :: "TestReport \<Rightarrow> string \<Rightarrow> (string \<times> pyval) list option" where
  "capacity_recommendations report test_type =
     (if response_times report = [] then Some [(''error'', Str ''No data available'')]
      else do {
        avg_response_time \<leftarrow> mean (response_times report);
        success_rate \<leftarrow> success_rate_of report;
        let current_capacity = [];
        let scaling_recommendations = [];
        let optimization_suggestions = [];
        let current_capacity =
          (if test_type = ''concurrent''
           then let concurrent_users = total_requests report
                in if success_rate \<ge> 95 \<and> avg_response_time < 1.0
                   then AList.update ''estimated_max''
                          (''Likely can handle '' @ str_int (concurrent_users * 2) @ ''-'' @
                           str_int (concurrent_users * 3) @ '' users'')
                          (AList.update ''concurrent_users''
                             (''Can handle '' @ str_int concurrent_users @
                              '' concurrent users well'')
                             current_capacity)
                   else if success_rate \<ge> 90
                   then AList.update ''estimated_max''
                          (''Maximum capacity around '' @ str_int concurrent_users @ '' users'')
                          (AList.update ''concurrent_users''
                             (''Struggling with '' @ str_int concurrent_users @
                              '' concurrent users'')
                             current_capacity)
                   else AList.update ''estimated_max''
                          (''Maximum capacity below '' @ str_int concurrent_users @ '' users'')
                          (AList.update ''concurrent_users''
                             (''Overloaded with '' @ str_int concurrent_users @
                              '' concurrent users'')
                             current_capacity)
           else current_capacity);
        let scaling_recommendations =
          (if avg_response_time > 1.0
           then scaling_recommendations @
             [''Consider horizontal scaling (more servers)'', ''Implement load balancing'']
           else scaling_recommendations);
        let scaling_recommendations =
          (if success_rate < 95
           then scaling_recommendations @
             [''Increase server resources (CPU/Memory)'', ''Optimize database connections'']
           else scaling_recommendations);
        let optimization_suggestions =
          (if avg_response_time > 0.5
           then optimization_suggestions @
             [''Profile application code for slow functions'',
              ''Implement caching (Redis/Memcached)'', ''Optimize database queries'']
           else optimization_suggestions);
        let optimization_suggestions =
          (if requests_per_second report < 20
           then optimization_suggestions @
             [''Consider asynchronous processing'', ''Implement connection pooling'']
           else optimization_suggestions);
        Some [(''current_capacity'', StrDict current_capacity),
              (''scaling_recommendations'', StrList scaling_recommendations),
              (''optimization_suggestions'', StrList optimization_suggestions)] })"

section \<open>The ramp\<close>

text \<open>The ramp of \<^verbatim>\<open>ramp_up_test\<close> (lines 377-379) divides two integers into a
  \<^verbatim>\<open>float\<close>, multiplies that by an integer and truncates. Each of the two operations
  rounds its exact result to the nearest binary64 number, ties to the even one, and the
  truncation sees the rounded product; so the rounding is part of the model. A finite
  binary64 number that is not negative is kept as the fraction it denotes, numerator and
  denominator, the denominator a power of two. The exponent range of binary64 is not
  modelled: it matters only beyond \<open>10\<^sup>3\<^sup>0\<^sup>8\<close> and below \<open>10\<^sup>-\<^sup>3\<^sup>0\<^sup>7\<close>.\<close>

type_synonym binary64 = "int \<times> int"

text \<open>\<^verbatim>\<open>int.bit_length\<close>, on a number that is not negative.\<close>

function bit_length :: "int \<Rightarrow> nat" where
  "bit_length n = (if n \<le> 0 then 0 else Suc (bit_length (n div 2)))"
  by pat_completeness auto
termination
  by (relation "measure nat") auto

declare bit_length.simps [simp del]

text \<open>The integer nearest to \<open>p / q\<close>, the even one of two that are equally near, for
  \<open>p \<ge> 0\<close> and \<open>q > 0\<close>.\<close>

definition round_half_even :: "int \<Rightarrow> int \<Rightarrow> int" where
  "round_half_even p q =
     (let n = p div q; r = p mod q
      in if 2 * r < q then n
         else if q < 2 * r then n + 1
         else if even n then n else n + 1)"

text \<open>The exponent \<open>k\<close> with \<open>2\<^sup>k \<le> p / q < 2\<^sup>k\<^sup>+\<^sup>1\<close>, for positive \<open>p\<close> and \<open>q\<close>.\<close>

definition floor_log2 :: "int \<Rightarrow> int \<Rightarrow> int" where
  "floor_log2 p q =
     (let d = int (bit_length p) - int (bit_length q)
      in if (if 0 \<le> d then q * 2 ^ nat d \<le> p else q \<le> p * 2 ^ nat (- d))
         then d else d - 1)"

text \<open>The binary64 number nearest to \<open>p / q\<close>, for \<open>q > 0\<close>: a significand of 53 bits,
  rounded half to even, at the exponent of \<open>p / q\<close>; the sign is kept apart.\<close>

definition nearest_binary64 :: "int \<Rightarrow> int \<Rightarrow> binary64" where
  "nearest_binary64 p q =
     (let e = floor_log2 p q - 52
      in if 0 \<le> e then (round_half_even p (q * 2 ^ nat e) * 2 ^ nat e, 1)
         else (round_half_even (p * 2 ^ nat (- e)) q, 2 ^ nat (- e)))"

definition to_binary64 :: "int \<Rightarrow> int \<Rightarrow> binary64" where
  "to_binary64 p q =
     (if p = 0 then (0, 1)
      else if p < 0 then (- fst (nearest_binary64 (- p) q), snd (nearest_binary64 (- p) q))
      else nearest_binary64 p q)"

text \<open>\<^verbatim>\<open>a / b\<close> on integers (true division, correctly rounded, \<^verbatim>\<open>ZeroDivisionError\<close> on a
  zero divisor), \<^verbatim>\<open>float(n)\<close>, \<^verbatim>\<open>x * y\<close> on floats, and \<^verbatim>\<open>int(x)\<close>, which truncates
  towards zero.\<close>

definition int_truediv :: "int \<Rightarrow> int \<Rightarrow> binary64 option" where
  "int_truediv a b =
     (if b = 0 then None
      else if b < 0 then Some (to_binary64 (- a) (- b))
      else Some (to_binary64 a b))"

definition float_of_int :: "int \<Rightarrow> binary64" where
  "float_of_int n = to_binary64 n 1"

definition float_mul :: "binary64 \<Rightarrow> binary64 \<Rightarrow> binary64" where
  "float_mul x y = to_binary64 (fst x * fst y) (snd x * snd y)"

definition int_of_float :: "binary64 \<Rightarrow> int" where
  "int_of_float x =
     (if 0 \<le> fst x then fst x div snd x else - ((- fst x) div snd x))"

text \<open>Line 379: the concurrency level of ramp step \<open>second\<close>.\<close>

definition current_users :: "binary64 \<Rightarrow> int \<Rightarrow> int" where
  "current_users ramp_step second =
     max 1 (int_of_float (float_mul ramp_step (float_of_int (second + 1))))"

text \<open>Lines 377-379: the levels of the ramp phase, one for each \<^verbatim>\<open>second\<close> of
  \<^verbatim>\<open>range(ramp_duration)\<close>.\<close>

definition ramp_levels :: "int \<Rightarrow> int \<Rightarrow> int list option" where
  "ramp_levels max_users ramp_duration =
     do { ramp_step \<leftarrow> int_truediv max_users ramp_duration;
          Some (map (current_users ramp_step) [0..ramp_duration - 1]) }"

text \<open>The specification's formula for the level of step \<open>s\<close>, in exact arithmetic:
  \<open>max(1, floor(max_users / ramp_duration \<times> (s + 1)))\<close>.\<close>

definition spec_level :: "int \<Rightarrow> int \<Rightarrow> int \<Rightarrow> int" where
  "spec_level max_users ramp_duration s = max 1 ((max_users * (s + 1)) div ramp_duration)"

section \<open>Binary64 arithmetic on measurements\<close>

text \<open>The trend analysis subtracts, divides, averages and multiplies timestamps and
  latencies, and the rounded results decide which bucket a result falls into and how a
  trend is classified. So here every operation rounds as binary64 does: a \<^verbatim>\<open>float\<close> is
  still the real number it denotes, and an operation returns the binary64 number
  nearest to its exact result, ties to the even significand. A magnitude beyond the
  largest binary64 number stands for an infinity; it can arise only from timestamps
  beyond \<open>10\<^sup>3\<^sup>0\<^sup>7\<close> and is treated where the code would fail on it.\<close>

definition pow2 :: "int \<Rightarrow> real" where
  "pow2 e = (if 0 \<le> e then 2 ^ nat e else 1 / 2 ^ nat (- e))"

text \<open>The exponent \<open>k\<close> with \<open>2\<^sup>k \<le> x < 2\<^sup>k\<^sup>+\<^sup>1\<close>, for \<open>x > 0\<close>: from the bit length of the
  integer part when \<open>x \<ge> 1\<close>, and of the reciprocal rounded up when \<open>x < 1\<close>.\<close>

definition binary_exponent :: "real \<Rightarrow> int" where
  "binary_exponent x =
     (if 1 \<le> x then int (bit_length \<lfloor>x\<rfloor>) - 1
      else - int (bit_length (\<lceil>1 / x\<rceil> - 1)))"

text \<open>The integer nearest to \<open>y\<close>, the even one of two that are equally near.\<close>

definition nearest_even :: "real \<Rightarrow> int" where
  "nearest_even y =
     (let n = \<lfloor>y\<rfloor>; r = y - of_int n
      in if r < 1 / 2 then n
         else if 1 / 2 < r then n + 1
         else if even n then n else n + 1)"

text \<open>The binary64 number nearest to \<open>x\<close>: a significand of 53 bits at the exponent of
  \<open>x\<close>, or at the least exponent \<open>-1022\<close> for a subnormal number.\<close>

definition round64 :: "real \<Rightarrow> real" where
  "round64 x =
     (if x = 0 then 0
      else let e = max (binary_exponent \<bar>x\<bar>) (- 1022) - 52
           in of_int (nearest_even (x / pow2 e)) * pow2 e)"

definition max_binary64 :: real where
  "max_binary64 = (2 ^ 53 - 1) * 2 ^ 971"

text \<open>\<^verbatim>\<open>x - y\<close>, \<^verbatim>\<open>x + y\<close>, \<^verbatim>\<open>x * y\<close> and \<^verbatim>\<open>x / y\<close> on floats (an \<^verbatim>\<open>int\<close> operand is
  converted first, exactly for the small integers that occur); \<^verbatim>\<open>a / b\<close> on integers
  is the same correctly rounded quotient. \<^verbatim>\<open>statistics.mean\<close> sums exactly and rounds
  once. \<^verbatim>\<open>int(x)\<close> raises \<^verbatim>\<open>OverflowError\<close> on an infinity.\<close>

definition fsub :: "real \<Rightarrow> real \<Rightarrow> real" where
  "fsub x y = round64 (x - y)"

definition fadd :: "real \<Rightarrow> real \<Rightarrow> real" where
  "fadd x y = round64 (x + y)"

definition fmul :: "real \<Rightarrow> real \<Rightarrow> real" where
  "fmul x y = round64 (x * y)"

definition fdiv :: "real \<Rightarrow> real \<Rightarrow> real option" where
  "fdiv x y = map_option round64 (py_div x y)"

definition mean64 :: "real list \<Rightarrow> real option" where
  "mean64 xs = map_option round64 (mean xs)"

definition float_to_int :: "real \<Rightarrow> int option" where
  "float_to_int x = (if max_binary64 < \<bar>x\<bar> then None else Some (py_int x))"

section \<open>Trend analysis\<close>

text \<open>The metrics of one non-empty time bucket (lines 139-145 of
  \<^verbatim>\<open>analyze_performance_trends\<close>): a dictionary with three fixed keys. A result counts
  as a success when its status code is 200.\<close>

record bucket_metric =
  bucket_avg_response_time :: real
  bucket_success_rate :: real
  bucket_count :: int

definition bucket_metric_of :: "TestResult list \<Rightarrow> bucket_metric option" where
  "bucket_metric_of bucket =
     do { avg_response_time \<leftarrow> mean64 (map response_time bucket);
          q \<leftarrow> fdiv
                 (of_int (sum_list (map (\<lambda>r. 1) (filter (\<lambda>r. status_code r = 200) bucket))))
                 (of_nat (length bucket));
          let success_rate = fmul q 100;
          Some \<lparr>bucket_avg_response_time = avg_response_time,
                bucket_success_rate = success_rate,
                bucket_count = int (length bucket)\<rparr> }"

text \<open>The result of \<^verbatim>\<open>analyze_performance_trends\<close>: the empty dictionary, the dictionary
  \<^verbatim>\<open>{"trend": "insufficient_data"}\<close>, or the dictionary of the four keys
  \<^verbatim>\<open>response_time_trend\<close>, \<^verbatim>\<open>success_rate_trend\<close>, \<^verbatim>\<open>bucket_metrics\<close> and
  \<^verbatim>\<open>performance_degradation\<close>.\<close>

datatype trends =
    No_Trends
  | Insufficient_Data
  | Trends (response_time_trend: string) (success_rate_trend: string)
      (bucket_metrics: "bucket_metric list") (performance_degradation: bool)

text \<open>The position that the index \<open>i\<close> denotes in a Python list of \<open>len\<close> elements: an
  index below zero counts back from the end, and one that falls outside the list raises
  \<^verbatim>\<open>IndexError\<close>. \<^verbatim>\<open>xs[i]\<close> and \<^verbatim>\<open>buckets[i].append(x)\<close> both go through it.\<close>

definition py_index :: "nat \<Rightarrow> int \<Rightarrow> nat option" where
  "py_index len i =
     (if 0 \<le> i \<and> i < int len then Some (nat i)
      else if i < 0 \<and> - int len \<le> i then Some (nat (int len + i))
      else None)"

definition py_nth :: "'a list \<Rightarrow> int \<Rightarrow> 'a option" where
  "py_nth xs i = map_option (\<lambda>pos. xs ! pos) (py_index (length xs) i)"

definition bucket_append :: "'a list list \<Rightarrow> int \<Rightarrow> 'a \<Rightarrow> 'a list list option" where
  "bucket_append buckets i x =
     map_option (\<lambda>pos. buckets[pos := buckets ! pos @ [x]]) (py_index (length buckets) i)"

text \<open>The loop of lines 131-133. The quotient that is truncated is at most about the
  number of buckets, so the truncation cannot meet an infinity.\<close>

fun fill_buckets ::
  "real \<Rightarrow> real \<Rightarrow> int \<Rightarrow> TestResult list \<Rightarrow> TestResult list list \<Rightarrow>
   TestResult list list option" where
  "fill_buckets start bucket_size num_buckets [] buckets = Some buckets"
| "fill_buckets start bucket_size num_buckets (result # rest) buckets =
     do { q \<leftarrow> fdiv (fsub (timestamp result) start) bucket_size;
          let bucket_idx = min (py_int q) (num_buckets - 1);
          buckets \<leftarrow> bucket_append buckets bucket_idx result;
          fill_buckets start bucket_size num_buckets rest buckets }"

text \<open>Lines 127-133: the time buckets of a run that starts at \<open>start\<close> and lasts
  \<open>duration\<close>, filled with the sorted results.\<close>

definition time_buckets :: "TestResult list \<Rightarrow> real \<Rightarrow> real \<Rightarrow> TestResult list list option" where
  "time_buckets sorted_results start duration =
     do { whole_seconds \<leftarrow> float_to_int duration;
          let num_buckets = min 10 whole_seconds;
          bucket_size \<leftarrow> fdiv duration (of_int num_buckets);
          let buckets = replicate (nat num_buckets) [];
          fill_buckets start bucket_size num_buckets sorted_results buckets }"

text \<open>The loop of lines 136-145: the metrics of the buckets that are not empty, in
  order.\<close>

fun bucket_metrics_loop :: "TestResult list list \<Rightarrow> bucket_metric list option" where
  "bucket_metrics_loop [] = Some []"
| "bucket_metrics_loop (bucket # rest) =
     (if bucket \<noteq> []
      then do { m \<leftarrow> bucket_metric_of bucket;
                ms \<leftarrow> bucket_metrics_loop rest;
                Some (m # ms) }
      else bucket_metrics_loop rest)"

text \<open>\<^verbatim>\<open>PerformanceAnalyzer.analyze_performance_trends\<close> (lines 110-172); its parameter
  \<^verbatim>\<open>results\<close> is \<open>all_results\<close> here. The literals \<^verbatim>\<open>1.5\<close>, \<^verbatim>\<open>2\<close> and \<^verbatim>\<open>10\<close> are binary64
  numbers; the literal \<^verbatim>\<open>0.8\<close> denotes the binary64 number nearest to \<open>8 / 10\<close>.\<close>

definition analyze_performance_trends :: "TestResult list \<Rightarrow> trends option" where
  "analyze_performance_trends all_results =
     (if all_results = [] then Some No_Trends
      else
        let sorted_results = sort_key timestamp all_results
        in do {
          first_result \<leftarrow> py_nth sorted_results 0;
          last_result \<leftarrow> py_nth sorted_results (- 1);
          let start_time = timestamp first_result;
          let end_time = timestamp last_result;
          let duration = fsub end_time start_time;
          if duration < 1 then Some Insufficient_Data
          else do {
            buckets \<leftarrow> time_buckets sorted_results start_time duration;
            bucket_metrics \<leftarrow> bucket_metrics_loop buckets;
            if length bucket_metrics < 2 then Some Insufficient_Data
            else do {
              let response_times = map bucket_avg_response_time bucket_metrics;
              let success_rates = map bucket_success_rate bucket_metrics;
              rt_last \<leftarrow> py_nth response_times (- 1);
              rt_first \<leftarrow> py_nth response_times 0;
              let rt_trend =
                (if rt_last > fmul rt_first 1.5 then ''degrading''
                 else if rt_last < fmul rt_first (round64 0.8) then ''improving''
                 else ''stable'');
              sr_last \<leftarrow> py_nth success_rates (- 1);
              sr_first \<leftarrow> py_nth success_rates 0;
              let sr_trend =
                (if sr_last < fsub sr_first 10 then ''degrading''
                 else if sr_last > fadd sr_first 10 then ''improving''
                 else ''stable'');
              Some (Trends rt_trend sr_trend bucket_metrics
                      (rt_last > fmul rt_first 2)) } } })"

text \<open>The quantities the specification names, as the code computes them: the start and
  the duration of the run, the average latency and the success rate of a bucket, its
  metrics, and the two classifications.\<close>

definition run_start :: "TestResult list \<Rightarrow> real" where
  "run_start all_results = timestamp (hd (sort_key timestamp all_results))"

definition run_duration :: "TestResult list \<Rightarrow> real" where
  "run_duration all_results =
     fsub (timestamp (last (sort_key timestamp all_results)))
       (timestamp (hd (sort_key timestamp all_results)))"

definition bucket_latency :: "TestResult list \<Rightarrow> real" where
  "bucket_latency bucket =
     round64 (sum_list (map response_time bucket) / real (length bucket))"

definition bucket_successes :: "TestResult list \<Rightarrow> real" where
  "bucket_successes bucket =
     fmul (round64 (real (length (filter (\<lambda>r. status_code r = 200) bucket)) /
                    real (length bucket))) 100"

definition metrics_of :: "TestResult list \<Rightarrow> bucket_metric" where
  "metrics_of bucket =
     \<lparr>bucket_avg_response_time = bucket_latency bucket,
      bucket_success_rate = bucket_successes bucket,
      bucket_count = int (length bucket)\<rparr>"

definition latency_trend :: "real \<Rightarrow> real \<Rightarrow> string" where
  "latency_trend first_avg last_avg =
     (if last_avg > fmul first_avg 1.5 then ''degrading''
      else if last_avg < fmul first_avg (round64 0.8) then ''improving''
      else ''stable'')"

definition success_trend :: "real \<Rightarrow> real \<Rightarrow> string" where
  "success_trend first_rate last_rate =
     (if last_rate < fsub first_rate 10 then ''degrading''
      else if last_rate > fadd first_rate 10 then ''improving''
      else ''stable'')"

section \<open>Properties of the aggregator\<close>

lemma update_report_fields:
  "total_requests (update_report r x) = total_requests r + 1"
  "response_times (update_report r x) = response_times r @ [response_time x]"
  "results (update_report r x) = results r @ [x]"
  "failed_requests (update_report r x) =
     (if status_code x = 0 then failed_requests r + 1 else failed_requests r)"
  "successful_requests (update_report r x) =
     (if status_code x = 0 then successful_requests r else successful_requests r + 1)"
  "errors (update_report r x) =
     (if status_code x = 0 then errors r @ [error x] else errors r)"
  "start_time (update_report r x) = start_time r"
  "end_time (update_report r x) = end_time r"
  by (simp_all add: update_report_def Let_def split: option.splits)

lemma update_report_status_codes:
  "status_codes (update_report r x) =
     AList.update (status_code x) (count_of (status_codes r) (status_code x) + 1)
       (status_codes r)"
  by (simp add: update_report_def Let_def count_of_def split: option.splits)

lemma record_all_snoc:
  "record_all r (xs @ [x]) = update_report (record_all r xs) x"
  by (simp add: record_all_def)

lemma report_inv_init: "report_inv (TestReport_init now)"
  by (simp add: report_inv_def TestReport_init_def)

lemma report_inv_step: "report_inv r \<Longrightarrow> report_inv (update_report r x)"
  by (simp add: report_inv_def update_report_fields)

lemma report_inv_record_all: "report_inv r \<Longrightarrow> report_inv (record_all r xs)"
  by (induction xs rule: rev_induct) (simp_all add: record_all_def report_inv_step)

text \<open>
  Claim C1. Every report obtained by recording a finite sequence of outcomes with
  \<^verbatim>\<open>_update_report\<close>, starting from an empty report, has
  \<open>total_requests = successful_requests + failed_requests\<close>, and \<open>total_requests\<close> is the
  length of \<open>response_times\<close> and of \<open>results\<close>; and one record step keeps these
  equalities, from any report that has them.
\<close>

theorem report_invariant:
  "report_inv (record_all (TestReport_init now) outcomes) \<and>
   (\<forall>r x. report_inv r \<longrightarrow> report_inv (update_report r x))"
  by (simp add: report_inv_record_all report_inv_init report_inv_step)

theorem report_invariant_witness:
  "report_inv (TestReport_init 0) \<and>
   report_inv (update_report (TestReport_init 0)
     \<lparr>status_code = 200, response_time = 1 / 10, content_length = 12, timestamp = 5,
      thread_id = 1, error = [], ttfb = 1 / 10\<rparr>) \<and>
   total_requests (record_all (TestReport_init 0)
     [\<lparr>status_code = 0, response_time = 3, content_length = 0, timestamp = 5,
       thread_id = 1, error = [], ttfb = 0\<rparr>]) = 1"
proof -
  let ?x = "\<lparr>status_code = 200, response_time = 1 / 10, content_length = 12,
              timestamp = 5, thread_id = 1, error = [], ttfb = 1 / 10\<rparr>"
  let ?y = "\<lparr>status_code = 0, response_time = 3, content_length = 0, timestamp = 5,
              thread_id = 1, error = [], ttfb = 0\<rparr>"
  have init: "report_inv (TestReport_init 0)"
    by (simp add: report_inv_def TestReport_init_def)
  from report_invariant [of 0 "[?y]"]
  have all: "report_inv (record_all (TestReport_init 0) [?y])"
    and step: "report_inv (TestReport_init 0) \<longrightarrow>
                 report_inv (update_report (TestReport_init 0) ?x)"
    by blast+
  from all have "total_requests (record_all (TestReport_init 0) [?y]) = 1"
    by (simp add: report_inv_def record_all_def update_report_fields TestReport_init_def)
  with init step show ?thesis by blast
qed

lemma count_sum_update:
  "count_sum (AList.update k (count_of d k + 1) d) = count_sum d + 1"
  by (induction d) (auto simp: count_sum_def count_of_def)

lemma count_of_update:
  "count_of (AList.update k v d) k' = (if k' = k then v else count_of d k')"
  by (simp add: count_of_def update_conv')

lemma count_sum_step:
  "count_sum (status_codes (update_report r x)) = count_sum (status_codes r) + 1"
  by (simp add: update_report_status_codes count_sum_update)

lemma count_zero_step:
  "count_of (status_codes (update_report r x)) 0 =
     (if status_code x = 0 then count_of (status_codes r) 0 + 1
      else count_of (status_codes r) 0)"
  by (simp add: update_report_status_codes count_of_update)

lemma status_codes_record_all:
  "count_sum (status_codes r) = total_requests r \<Longrightarrow>
   count_of (status_codes r) 0 = failed_requests r \<Longrightarrow>
   count_sum (status_codes (record_all r xs)) = total_requests (record_all r xs) \<and>
   count_of (status_codes (record_all r xs)) 0 = failed_requests (record_all r xs)"
proof (induction xs rule: rev_induct)
  case Nil
  then show ?case by (simp add: record_all_def)
next
  case (snoc x xs)
  then show ?case
    by (simp add: record_all_snoc count_sum_step count_zero_step update_report_fields)
qed

text \<open>
  Claim C10. In every report obtained by recording a finite sequence of outcomes with
  \<^verbatim>\<open>_update_report\<close>, starting from an empty report, the occurrence counts of
  \<open>status_codes\<close> sum to \<open>total_requests\<close>; and the count under key \<open>0\<close> is
  \<open>failed_requests\<close>, so every transport failure shows in the distribution.
\<close>

theorem status_code_counts:
  "count_sum (status_codes (record_all (TestReport_init now) outcomes)) =
     total_requests (record_all (TestReport_init now) outcomes) \<and>
   count_of (status_codes (record_all (TestReport_init now) outcomes)) 0 =
     failed_requests (record_all (TestReport_init now) outcomes)"
  by (rule status_codes_record_all)
     (simp_all add: TestReport_init_def count_sum_def count_of_def)

theorem status_code_counts_witness:
  "count_sum (status_codes (record_all (TestReport_init 0)
     [\<lparr>status_code = 0, response_time = 3, content_length = 0, timestamp = 5,
       thread_id = 1, error = [], ttfb = 0\<rparr>,
      \<lparr>status_code = 404, response_time = 1, content_length = 9, timestamp = 6,
       thread_id = 1, error = [], ttfb = 1\<rparr>])) = 2 \<and>
   count_of (status_codes (record_all (TestReport_init 0)
     [\<lparr>status_code = 0, response_time = 3, content_length = 0, timestamp = 5,
       thread_id = 1, error = [], ttfb = 0\<rparr>,
      \<lparr>status_code = 404, response_time = 1, content_length = 9, timestamp = 6,
       thread_id = 1, error = [], ttfb = 1\<rparr>])) 0 = 1"
  using status_code_counts [of 0
     "[\<lparr>status_code = 0, response_time = 3, content_length = 0, timestamp = 5,
        thread_id = 1, error = [], ttfb = 0\<rparr>,
       \<lparr>status_code = 404, response_time = 1, content_length = 9, timestamp = 6,
        thread_id = 1, error = [], ttfb = 1\<rparr>]"]
  by (simp add: record_all_def update_report_fields TestReport_init_def)

section \<open>Properties of the grade\<close>

lemma grade_of_label_of: "grade_of_label (label_of g) = Some g"
  by (cases g) (simp_all add: label_of_def grade_of_label_def)

lemma grade_label_eq:
  "calculate_performance_grade t s r =
     label_of (spec_letter
       (spec_response_time_points t + spec_success_rate_points s +
        spec_throughput_points r))"
proof -
  have rt: "(if t < 0.2 then (0::int) + 40 else if t < 0.5 then 0 + 35
             else if t < 1.0 then 0 + 25 else if t < 2.0 then 0 + 15 else 0 + 5) =
            spec_response_time_points t"
    by (simp add: spec_response_time_points_def)
  have sr: "\<And>k::int. (if s \<ge> 99.5 then k + 40 else if s \<ge> 95 then k + 35
             else if s \<ge> 90 then k + 25 else if s \<ge> 75 then k + 15 else k + 5) =
            k + spec_success_rate_points s"
    by (simp add: spec_success_rate_points_def)
  have tp: "\<And>k::int. (if r \<ge> 50 then k + 20 else if r \<ge> 20 then k + 18
             else if r \<ge> 10 then k + 15 else if r \<ge> 5 then k + 10 else k + 5) =
            k + spec_throughput_points r"
    by (simp add: spec_throughput_points_def)
  have letter: "\<And>k::int. (if k \<ge> 90 then ''A+ (Excellent)''
             else if k \<ge> 80 then ''A (Very Good)''
             else if k \<ge> 70 then ''B (Good)''
             else if k \<ge> 60 then ''C (Fair)''
             else if k \<ge> 50 then ''D (Poor)''
             else ''F (Critical)'') = label_of (spec_letter k)"
    by (simp add: spec_letter_def label_of_def)
  show ?thesis
    unfolding calculate_performance_grade_def Let_def rt sr tp letter ..
qed

lemma response_time_points_antimono:
  "t1 \<le> t2 \<Longrightarrow> spec_response_time_points t2 \<le> spec_response_time_points t1"
  by (simp add: spec_response_time_points_def)

lemma spec_letter_mono: "a \<le> b \<Longrightarrow> grade_rank (spec_letter a) \<le> grade_rank (spec_letter b)"
  by (simp add: spec_letter_def)

text \<open>
  Claim C3. For an average response time \<open>t \<ge> 0\<close>, a success rate \<open>s\<close> in \<open>[0, 100]\<close> and a
  throughput \<open>r \<ge> 0\<close>, \<^verbatim>\<open>calculate_performance_grade\<close> returns the label of the letter
  that the specification's tables give: the response-time points (\<open>< 0.2\<close> 40, \<open>< 0.5\<close> 35,
  \<open>< 1.0\<close> 25, \<open>< 2.0\<close> 15, else 5) plus the success-rate points (\<open>\<ge> 99.5\<close> 40, \<open>\<ge> 95\<close> 35,
  \<open>\<ge> 90\<close> 25, \<open>\<ge> 75\<close> 15, else 5) plus the throughput points (\<open>\<ge> 50\<close> 20, \<open>\<ge> 20\<close> 18,
  \<open>\<ge> 10\<close> 15, \<open>\<ge> 5\<close> 10, else 5), mapped by \<open>\<ge> 90\<close> A+, \<open>\<ge> 80\<close> A, \<open>\<ge> 70\<close> B, \<open>\<ge> 60\<close> C,
  \<open>\<ge> 50\<close> D, else F, every band closed at its lower bound.
\<close>

theorem grade_by_bands:
  assumes "0 \<le> t" and "0 \<le> s" and "s \<le> 100" and "0 \<le> r"
  shows "calculate_performance_grade t s r =
           label_of (spec_letter
             (spec_response_time_points t + spec_success_rate_points s +
              spec_throughput_points r)) \<and>
         grade_of_label (calculate_performance_grade t s r) =
           Some (spec_letter
             (spec_response_time_points t + spec_success_rate_points s +
              spec_throughput_points r))"
  by (simp add: grade_label_eq grade_of_label_of)

theorem grade_by_bands_witness:
  "calculate_performance_grade 0.2 99.5 10 = ''A+ (Excellent)'' \<and>
   grade_of_label (calculate_performance_grade 0.2 99.5 10) = Some A_plus \<and>
   spec_response_time_points 0.2 + spec_success_rate_points 99.5 +
     spec_throughput_points 10 = 35 + 40 + 15"
proof -
  have "(0::real) \<le> 0.2" and "(0::real) \<le> 99.5" and "(99.5::real) \<le> 100"
    and "(0::real) \<le> 10"
    by simp_all
  from grade_by_bands [OF this]
  show ?thesis
    by (simp add: spec_letter_def spec_response_time_points_def
        spec_success_rate_points_def spec_throughput_points_def label_of_def
        grade_of_label_def)
qed

text \<open>
  Claim C4. The grade is monotonic in latency: with the success rate and the throughput
  fixed, for average latencies \<open>0 \<le> t1 \<le> t2\<close> the grade returned for \<open>t1\<close> is at least as
  good, in the order \<open>A+ > A > B > C > D > F\<close>, as the grade returned for \<open>t2\<close>.
\<close>

theorem grade_monotonic_in_latency:
  assumes "0 \<le> t1" and "t1 \<le> t2"
  shows "\<exists>g1 g2.
           grade_of_label (calculate_performance_grade t1 s r) = Some g1 \<and>
           grade_of_label (calculate_performance_grade t2 s r) = Some g2 \<and>
           grade_rank g2 \<le> grade_rank g1"
proof -
  let ?p = "\<lambda>t. spec_response_time_points t + spec_success_rate_points s +
                 spec_throughput_points r"
  from assms(2) have "?p t2 \<le> ?p t1"
    by (simp add: response_time_points_antimono)
  then have "grade_rank (spec_letter (?p t2)) \<le> grade_rank (spec_letter (?p t1))"
    by (rule spec_letter_mono)
  then show ?thesis
    by (simp add: grade_label_eq grade_of_label_of)
qed

theorem grade_monotonic_in_latency_witness:
  "grade_of_label (calculate_performance_grade 0.1 100 60) = Some A_plus \<and>
   grade_of_label (calculate_performance_grade 3 100 60) = Some C \<and>
   grade_rank C \<le> grade_rank A_plus"
proof -
  have h: "(0::real) \<le> 0.1" "(0.1::real) \<le> 3" by simp_all
  have a: "grade_of_label (calculate_performance_grade 0.1 100 60) = Some A_plus"
    by (simp add: calculate_performance_grade_def grade_of_label_def)
  have b: "grade_of_label (calculate_performance_grade 3 100 60) = Some C"
    by (simp add: calculate_performance_grade_def grade_of_label_def)
  from grade_monotonic_in_latency [OF h, of 100 60] a b
  show ?thesis by simp
qed

section \<open>Properties of finalisation\<close>

lemma finalize_report_fields:
  "end_time (finalize_report r) = end_time r"
  "start_time (finalize_report r) = start_time r"
  "total_requests (finalize_report r) = total_requests r"
  "results (finalize_report r) = results r"
  "requests_per_second (finalize_report r) =
     (if end_time r - start_time r > 0
      then of_int (total_requests r) / (end_time r - start_time r) else 0)"
  "slowest_requests (finalize_report r) = take 5 (sorted_reverse response_time (results r))"
  by (simp_all add: finalize_report_def Let_def)

lemma sorted_reverse_descending: "sorted (rev (map key (sorted_reverse key xs)))"
  by (simp add: sorted_reverse_def rev_map)

lemma sorted_reverse_stable:
  "filter (\<lambda>x. key x = k) (sorted_reverse key xs) = filter (\<lambda>x. key x = k) xs"
  by (simp add: sorted_reverse_def rev_filter [symmetric] sort_key_stable)

lemma length_sorted_reverse: "length (sorted_reverse key xs) = length xs"
  by (simp add: sorted_reverse_def)

lemma set_sorted_reverse: "set (sorted_reverse key xs) = set xs"
  by (simp add: sorted_reverse_def)

text \<open>
  Claim C2, as stated, fails in its first part: \<^verbatim>\<open>_finalize_report\<close> does not set
  \<open>end_time\<close>. On a report created at clock reading 100 with one outcome recorded, it
  leaves \<open>end_time\<close> at the default 0, before \<open>start_time\<close>, and so the throughput at 0.
\<close>

theorem finalize_end_time_counterexample:
  "end_time (finalize_report (record_all (TestReport_init 100) [outcome 200 1 101])) = 0 \<and>
   start_time (finalize_report (record_all (TestReport_init 100) [outcome 200 1 101])) = 100 \<and>
   requests_per_second
     (finalize_report (record_all (TestReport_init 100) [outcome 200 1 101])) = 0"
  by (simp add: finalize_report_fields record_all_def update_report_fields TestReport_init_def)

text \<open>
  Claim C2, amended. \<^verbatim>\<open>_finalize_report\<close> leaves \<open>end_time\<close> as it finds it; each driver
  sets \<open>end_time\<close> to the current time in the statement before the call. It sets
  \<open>requests_per_second\<close> to \<open>total_requests / (end_time - start_time)\<close> when that elapsed
  time is positive and to 0 otherwise, and \<open>slowest_requests\<close> to the first 5 elements
  of \<open>results\<close> sorted by descending \<open>response_time\<close>, where outcomes of equal latency
  keep their order; with fewer than 5 results, \<open>slowest_requests\<close> holds all of them.
\<close>

theorem finalize_derived_fields:
  "end_time (finalize_report r) = end_time r \<and>
   finish_run now r = finalize_report (r\<lparr>end_time := now\<rparr>) \<and>
   end_time (finish_run now r) = now \<and>
   (end_time r - start_time r > 0 \<longrightarrow>
      requests_per_second (finalize_report r) =
        of_int (total_requests r) / (end_time r - start_time r)) \<and>
   (end_time r - start_time r \<le> 0 \<longrightarrow> requests_per_second (finalize_report r) = 0) \<and>
   slowest_requests (finalize_report r) =
     take 5 (sorted_reverse response_time (results r)) \<and>
   sorted (rev (map response_time (sorted_reverse response_time (results r)))) \<and>
   (\<forall>k. filter (\<lambda>x. response_time x = k) (sorted_reverse response_time (results r)) =
        filter (\<lambda>x. response_time x = k) (results r)) \<and>
   (length (results r) < 5 \<longrightarrow>
      slowest_requests (finalize_report r) = sorted_reverse response_time (results r) \<and>
      length (slowest_requests (finalize_report r)) = length (results r) \<and>
      set (slowest_requests (finalize_report r)) = set (results r))"
  by (simp add: finalize_report_fields finish_run_def sorted_reverse_descending
      sorted_reverse_stable length_sorted_reverse set_sorted_reverse)

theorem finalize_derived_fields_witness:
  "requests_per_second (finish_run 12 (record_all (TestReport_init 10)
     [outcome 200 1 10, outcome 404 3 10, outcome 500 1 11, outcome 200 3 11])) = 2 \<and>
   slowest_requests (finish_run 12 (record_all (TestReport_init 10)
     [outcome 200 1 10, outcome 404 3 10, outcome 500 1 11, outcome 200 3 11])) =
     [outcome 404 3 10, outcome 200 3 11, outcome 200 1 10, outcome 500 1 11] \<and>
   requests_per_second (finalize_report (record_all (TestReport_init 10)
     [outcome 200 1 10])) = 0"
proof -
  let ?xs = "[outcome 200 1 10, outcome 404 3 10, outcome 500 1 11, outcome 200 3 11]"
  let ?r = "(record_all (TestReport_init 10) ?xs)\<lparr>end_time := 12\<rparr>"
  let ?q = "record_all (TestReport_init 10) [outcome 200 1 10]"
  have r: "end_time ?r - start_time ?r > 0" "total_requests ?r = 4" "results ?r = ?xs"
    "end_time ?r - start_time ?r = 2" "length (results ?r) < 5"
    by (simp_all add: record_all_def update_report_fields TestReport_init_def)
  have q: "end_time ?q - start_time ?q \<le> 0"
    by (simp add: record_all_def update_report_fields TestReport_init_def)
  have s: "sorted_reverse response_time ?xs =
             [outcome 404 3 10, outcome 200 3 11, outcome 200 1 10, outcome 500 1 11]"
    by (simp add: sorted_reverse_def outcome_def)
  from finalize_derived_fields [of ?r 12] r s
  have "requests_per_second (finalize_report ?r) = 2"
    and "slowest_requests (finalize_report ?r) =
           [outcome 404 3 10, outcome 200 3 11, outcome 200 1 10, outcome 500 1 11]"
    by simp_all
  moreover from finalize_derived_fields [of ?q 0] q
  have "requests_per_second (finalize_report ?q) = 0"
    by blast
  ultimately show ?thesis
    by (simp add: finish_run_def)
qed

section \<open>Properties of the bottleneck analysis\<close>

text \<open>Where a word can occur in a text that is assembled from pieces: a piece that
  lacks the first character of the word can be skipped.\<close>

lemma sublist_skip:
  "ws \<noteq> [] \<Longrightarrow> hd ws \<notin> set xs \<Longrightarrow> sublist ws (xs @ ys) \<longleftrightarrow> sublist ws ys"
proof (induction xs)
  case Nil
  then show ?case by simp
next
  case (Cons x xs)
  from Cons.prems have "\<not> prefix ws (x # xs @ ys)"
    by (cases ws) auto
  with Cons show ?case
    by (simp add: sublist_Cons_right)
qed

lemma prefix_through_escapes:
  assumes u: "\<And>c. u c = [c] \<or> (\<exists>tl. u c = b # tl)"
  shows "b \<notin> set ws \<Longrightarrow> rest = [] \<or> hd rest \<notin> set ws \<Longrightarrow>
         prefix ws (concat (map u k) @ rest) \<Longrightarrow> prefix ws k"
proof (induction k arbitrary: ws)
  case Nil
  then show ?case by (cases ws; cases rest) auto
next
  case (Cons c k)
  show ?case
  proof (cases ws)
    case Nil
    then show ?thesis by simp
  next
    case (Cons w ws')
    from u [of c] show ?thesis
    proof
      assume "u c = [c]"
      with Cons.prems Cons Cons.IH [of ws'] show ?thesis by auto
    next
      assume "\<exists>tl. u c = b # tl"
      with Cons.prems Cons show ?thesis by auto
    qed
  qed
qed

lemma sublist_through_escapes:
  assumes u: "\<And>c. u c = [c] \<or> (\<exists>tl. u c = b # tl \<and> hd ws \<notin> set (b # tl))"
    and ws: "ws \<noteq> []" "b \<notin> set ws" "rest = [] \<or> hd rest \<notin> set ws"
  shows "sublist ws (concat (map u k) @ rest) \<Longrightarrow> sublist ws k \<or> sublist ws rest"
proof (induction k)
  case Nil
  then show ?case by simp
next
  case (Cons c k)
  have u': "\<And>c. u c = [c] \<or> (\<exists>tl. u c = b # tl)"
    using u by blast
  from u [of c] show ?case
  proof
    assume plain: "u c = [c]"
    from Cons.prems have "sublist ws (c # (concat (map u k) @ rest))"
      by (simp add: plain)
    then have "prefix ws (c # (concat (map u k) @ rest)) \<or>
               sublist ws (concat (map u k) @ rest)"
      by (simp only: sublist_Cons_right)
    then show ?thesis
    proof
      assume "prefix ws (c # (concat (map u k) @ rest))"
      then have "prefix ws (concat (map u (c # k)) @ rest)"
        by (simp add: plain)
      from prefix_through_escapes [where u = u, OF u' ws(2) ws(3) this]
      have "prefix ws (c # k)" .
      then have "sublist ws (c # k)" by (rule prefix_imp_sublist)
      then show ?thesis ..
    next
      assume "sublist ws (concat (map u k) @ rest)"
      from Cons.IH [OF this] show ?thesis
        by (auto intro: sublist_Cons_right [THEN iffD2])
    qed
  next
    assume "\<exists>tl. u c = b # tl \<and> hd ws \<notin> set (b # tl)"
    then obtain tl where tl: "u c = b # tl" "hd ws \<notin> set (b # tl)" by blast
    from Cons.prems have "sublist ws ((b # tl) @ (concat (map u k) @ rest))"
      by (simp add: tl(1))
    with sublist_skip [OF ws(1) tl(2)] have "sublist ws (concat (map u k) @ rest)"
      by blast
    from Cons.IH [OF this] show ?thesis
      by (auto intro: sublist_Cons_right [THEN iffD2])
  qed
qed

lemma lit_Connection: "lit ''Connection'' = [67, 111, 110, 110, 101, 99, 116, 105, 111, 110]"
  by (simp add: lit_def)

lemma hex_digit_not_C: "hex_digit d \<noteq> 67"
  by (simp add: hex_digit_def)

lemma hex_digits_not_C: "67 \<notin> set (hex_digits w n)"
  by (induction w n rule: hex_digits.induct) (simp_all add: hex_digit_not_C)

lemma repr_char_plain:
  "c \<noteq> q \<Longrightarrow> c \<noteq> 92 \<Longrightarrow> 32 \<le> c \<Longrightarrow> c < 127 \<Longrightarrow> repr_char pr q c = [c]"
  by (simp add: repr_char_def)

lemma repr_char_shape:
  "q \<noteq> 67 \<Longrightarrow>
   repr_char pr q c = [c] \<or> (\<exists>tl. repr_char pr q c = 92 # tl \<and> 67 \<notin> set (92 # tl))"
  by (simp add: repr_char_def lit_def hex_digits_not_C)

lemma str_nat_digits: "x \<in> set (lit (str_nat n)) \<Longrightarrow> 48 \<le> x \<and> x < 58"
proof (induction n rule: str_nat.induct)
  case (1 n)
  show ?case
  proof (cases "n < 10")
    case True
    with "1.prems" show ?thesis
      by (subst (asm) str_nat.simps) (simp add: lit_def)
  next
    case False
    have "n mod 10 < 10" by simp
    with False "1.prems" "1.IH" show ?thesis
      by (subst (asm) str_nat.simps) (auto simp: lit_def)
  qed
qed

lemma str_int_not_C: "67 \<notin> set (lit (str_int v))"
proof
  assume "67 \<in> set (lit (str_int v))"
  then have "67 = (45::nat) \<or> 67 \<in> set (lit (str_nat (nat (- v)))) \<or>
             67 \<in> set (lit (str_nat (nat v)))"
    by (auto simp: str_int_def lit_def split: if_splits)
  then show False
    using str_nat_digits [of 67] by auto
qed

lemma Connection_facts:
  "lit ''Connection'' \<noteq> []" "hd (lit ''Connection'') = 67"
  "92 \<notin> set (lit ''Connection'')" "39 \<notin> set (lit ''Connection'')"
  "34 \<notin> set (lit ''Connection'')"
  "\<And>c. c \<in> set (lit ''Connection'') \<Longrightarrow> c \<noteq> 92 \<and> c \<noteq> 39 \<and> c \<noteq> 34 \<and> 32 \<le> c \<and> c < 127"
  by (auto simp: lit_def)

lemma sublist_repr_str:
  assumes "sublist (lit ''Connection'') (repr_str pr k @ tail)"
  shows "sublist (lit ''Connection'') k \<or> sublist (lit ''Connection'') tail"
proof -
  let ?W = "lit ''Connection''"
  define q :: nat where "q = (if 39 \<in> set k \<and> 34 \<notin> set k then 34 else 39)"
  have q: "q \<noteq> 67" "q \<notin> set ?W"
    using Connection_facts(4,5) by (auto simp: q_def)
  have r: "repr_str pr k @ tail = [q] @ (concat (map (repr_char pr q) k) @ (q # tail))"
    by (simp add: repr_str_def q_def Let_def)
  have "hd ?W \<notin> set [q]"
    using q(1) by (simp add: Connection_facts(2))
  from assms sublist_skip [OF Connection_facts(1) this]
  have "sublist ?W (concat (map (repr_char pr q) k) @ (q # tail))"
    unfolding r by blast
  moreover have "\<And>c. repr_char pr q c = [c] \<or>
      (\<exists>tl. repr_char pr q c = 92 # tl \<and> hd ?W \<notin> set (92 # tl))"
    using repr_char_shape [OF q(1)] by (simp only: Connection_facts(2))
  moreover have "q # tail = [] \<or> hd (q # tail) \<notin> set ?W"
    using q(2) by simp
  ultimately have "sublist ?W k \<or> sublist ?W (q # tail)"
    using Connection_facts(1,3)
    by (intro sublist_through_escapes [where u = "repr_char pr q" and b = 92]) blast+
  moreover have "sublist ?W (q # tail) \<longleftrightarrow> sublist ?W tail"
    using sublist_skip [OF Connection_facts(1) \<open>hd ?W \<notin> set [q]\<close>, of tail] by simp
  ultimately show ?thesis by blast
qed

lemma str_dict_items:
  "str_dict pr d = lit ''{'' @ join (lit '', '') (map (str_item pr) d) @ lit ''}''"
  by (simp add: str_dict_def)

lemma sublist_str_item:
  assumes "sublist (lit ''Connection'') (str_item pr p @ tail)"
  shows "sublist (lit ''Connection'') (fst p) \<or> sublist (lit ''Connection'') tail"
proof -
  let ?W = "lit ''Connection''"
  from assms
  have "sublist ?W (repr_str pr (fst p) @ ((lit '': '' @ lit (str_int (snd p))) @ tail))"
    by (simp add: str_item_def)
  from sublist_repr_str [OF this]
  have "sublist ?W (fst p) \<or> sublist ?W ((lit '': '' @ lit (str_int (snd p))) @ tail)" .
  moreover have "hd ?W \<notin> set (lit '': '' @ lit (str_int (snd p)))"
    using str_int_not_C [of "snd p"] by (simp add: Connection_facts(2)) (simp add: lit_def)
  from sublist_skip [OF Connection_facts(1) this]
  have "sublist ?W ((lit '': '' @ lit (str_int (snd p))) @ tail) \<longleftrightarrow> sublist ?W tail" .
  ultimately show ?thesis by blast
qed

lemma sublist_join_items:
  "sublist (lit ''Connection'') (join (lit '', '') (map (str_item pr) d) @ tail) \<Longrightarrow>
   (\<exists>p\<in>set d. sublist (lit ''Connection'') (fst p)) \<or> sublist (lit ''Connection'') tail"
proof (induction d)
  case Nil
  then show ?case by simp
next
  case (Cons p d)
  let ?W = "lit ''Connection''"
  show ?case
  proof (cases d)
    case Nil
    with Cons.prems have "sublist ?W (str_item pr p @ tail)" by simp
    from sublist_str_item [OF this] show ?thesis by auto
  next
    case (Cons p' d')
    with Cons.prems
    have "sublist ?W (str_item pr p @
            (lit '', '' @ (join (lit '', '') (map (str_item pr) d) @ tail)))"
      by simp
    from sublist_str_item [OF this]
    have "sublist ?W (fst p) \<or>
          sublist ?W (lit '', '' @ (join (lit '', '') (map (str_item pr) d) @ tail))" .
    moreover have "hd ?W \<notin> set (lit '', '')"
      by (simp add: Connection_facts(2)) (simp add: lit_def)
    from sublist_skip [OF Connection_facts(1) this]
    have "sublist ?W (lit '', '' @ (join (lit '', '') (map (str_item pr) d) @ tail)) \<longleftrightarrow>
          sublist ?W (join (lit '', '') (map (str_item pr) d) @ tail)" .
    ultimately show ?thesis
      using Cons.IH by auto
  qed
qed

lemma sublist_str_dict_imp:
  assumes "sublist (lit ''Connection'') (str_dict pr d)"
  shows "\<exists>p\<in>set d. sublist (lit ''Connection'') (fst p)"
proof -
  let ?W = "lit ''Connection''"
  have "hd ?W \<notin> set (lit ''{'')" "hd ?W \<notin> set (lit ''}'')"
    by (simp_all add: Connection_facts(2)) (simp_all add: lit_def)
  note skip = sublist_skip [OF Connection_facts(1) this(1)]
    sublist_skip [OF Connection_facts(1) this(2), of "[]"]
  from assms have "sublist ?W (join (lit '', '') (map (str_item pr) d) @ lit ''}'')"
    unfolding str_dict_items skip(1) .
  from sublist_join_items [OF this] skip(2) Connection_facts(1)
  show ?thesis by auto
qed

lemma escapes_plain_word:
  "\<forall>c\<in>set ws. u c = [c] \<Longrightarrow> concat (map u ws) = ws"
  by (induction ws) simp_all

lemma sublist_into_repr_str:
  assumes "sublist (lit ''Connection'') k"
  shows "sublist (lit ''Connection'') (repr_str pr k)"
proof -
  let ?W = "lit ''Connection''"
  define q :: nat where "q = (if 39 \<in> set k \<and> 34 \<notin> set k then 34 else 39)"
  from assms obtain ps ss where k: "k = ps @ ?W @ ss"
    by (auto simp: sublist_def)
  have "\<forall>c\<in>set ?W. repr_char pr q c = [c]"
  proof
    fix c assume "c \<in> set ?W"
    from Connection_facts(6) [OF this] show "repr_char pr q c = [c]"
      by (intro repr_char_plain) (auto simp: q_def)
  qed
  then have "concat (map (repr_char pr q) ?W) = ?W"
    by (rule escapes_plain_word)
  then have "concat (map (repr_char pr q) k) =
      concat (map (repr_char pr q) ps) @ ?W @ concat (map (repr_char pr q) ss)"
    by (simp add: k)
  moreover have "repr_str pr k = [q] @ concat (map (repr_char pr q) k) @ [q]"
    by (simp add: repr_str_def q_def Let_def)
  ultimately have "repr_str pr k =
      ([q] @ concat (map (repr_char pr q) ps)) @ ?W @ (concat (map (repr_char pr q) ss) @ [q])"
    by simp
  then show ?thesis
    by (metis sublist_appendI)
qed

lemma sublist_into_join:
  "p \<in> set ps \<Longrightarrow> sublist p (join sep ps)"
proof (induction sep ps rule: join.induct)
  case (1 sep)
  then show ?case by simp
next
  case (2 sep p')
  then show ?case by simp
next
  case (3 sep p' q ps)
  show ?case
  proof (cases "p = p'")
    case True
    then show ?thesis by simp
  next
    case False
    with 3 have "sublist p (join sep (q # ps))" by simp
    then have "sublist p ((p' @ sep) @ join sep (q # ps))"
      by (simp only: sublist_append) simp
    then show ?thesis by simp
  qed
qed

lemma sublist_str_dict_iff:
  "sublist (lit ''Connection'') (str_dict pr d) \<longleftrightarrow>
     (\<exists>k\<in>fst ` set d. sublist (lit ''Connection'') k)"
proof
  assume "sublist (lit ''Connection'') (str_dict pr d)"
  from sublist_str_dict_imp [OF this]
  show "\<exists>k\<in>fst ` set d. sublist (lit ''Connection'') k" by blast
next
  assume "\<exists>k\<in>fst ` set d. sublist (lit ''Connection'') k"
  then obtain p where p: "p \<in> set d" "sublist (lit ''Connection'') (fst p)" by auto
  from p(2) have "sublist (lit ''Connection'') (repr_str pr (fst p))"
    by (rule sublist_into_repr_str)
  also have "sublist (repr_str pr (fst p)) (str_item pr p)"
    by (simp add: str_item_def)
  also from p(1) have "sublist (str_item pr p) (join (lit '', '') (map (str_item pr) d))"
    by (intro sublist_into_join) simp
  also have "sublist (join (lit '', '') (map (str_item pr) d)) (str_dict pr d)"
    unfolding str_dict_def by (rule sublist_appendI)
  finally show "sublist (lit ''Connection'') (str_dict pr d)" .
qed

lemma keys_count_error: "fst ` set (count_error d e) = insert e (fst ` set d)"
  by (simp add: count_error_def dom_update)

lemma keys_error_types: "fst ` set (foldl count_error d es) = fst ` set d \<union> set es"
  by (induction es arbitrary: d) (auto simp: keys_count_error)

lemma connection_test:
  "sublist (lit ''Connection'') (str_dict pr (foldl count_error [] es)) \<longleftrightarrow>
     (\<exists>e\<in>set es. sublist (lit ''Connection'') e)"
  by (simp add: sublist_str_dict_iff keys_error_types)

lemma stdev_defined: "length xs > 1 \<Longrightarrow> \<exists>s. stdev xs = Some s"
  by (simp add: stdev_def Let_def)

lemma identify_bottlenecks_shape:
  assumes "response_times r \<noteq> []" and "total_requests r \<noteq> 0"
  shows "\<exists>pre. ''CONNECTION_ISSUES: Server rejecting connections'' \<notin> set pre \<and>
           identify_bottlenecks pr r =
             Some (let bs = (if sublist (lit ''Connection'')
                                 (str_dict pr (foldl count_error [] (errors r)))
                             then pre @ [''CONNECTION_ISSUES: Server rejecting connections'']
                             else pre)
                   in if bs = []
                      then bs @ [''NO_MAJOR_BOTTLENECKS: System performing within acceptable limits'']
                      else bs)"
proof -
  let ?C = "''CONNECTION_ISSUES: Server rejecting connections''"
  obtain avg where avg: "mean (response_times r) = Some avg"
    using assms(1) by (simp add: mean_def)
  obtain sr where sr: "success_rate_of r = Some sr"
    using assms(2) by (simp add: success_rate_of_def py_div_def)
  define b1 where "b1 =
    (if avg > 2.0 then [] @ [''HIGH_RESPONSE_TIME: Server is very slow (>2s average)'']
     else if avg > 1.0
     then [] @ [''MODERATE_RESPONSE_TIME: Server response time is concerning (>1s average)'']
     else [])"
  define b2 where "b2 =
    (if sr < 90 then b1 @ [''LOW_SUCCESS_RATE: High failure rate indicates server overload'']
     else if sr < 95 then b1 @ [''MODERATE_FAILURES: Some requests failing under load'']
     else b1)"
  define b3 where "b3 =
    (if requests_per_second r < 5
     then b2 @ [''LOW_THROUGHPUT: Server can't handle concurrent requests efficiently'']
     else b2)"
  have c1: "?C \<notin> set b1" by (simp add: b1_def)
  have c2: "?C \<notin> set b2" using c1 by (simp add: b2_def)
  have c3: "?C \<notin> set b3" using c2 by (simp add: b3_def)
  have "\<exists>b4. ?C \<notin> set b4 \<and>
     (if length (response_times r) > 1
      then do { std_dev \<leftarrow> stdev (response_times r);
                Some (if std_dev > avg * 0.5
                      then b3 @ [''HIGH_VARIABILITY: Response times are inconsistent'']
                      else b3) }
      else Some b3) = Some b4"
  proof (cases "length (response_times r) > 1")
    case True
    from stdev_defined [OF this] obtain s where "stdev (response_times r) = Some s" ..
    with True c3 show ?thesis by simp
  next
    case False
    with c3 show ?thesis by simp
  qed
  then obtain b4 where b4: "?C \<notin> set b4"
    "(if length (response_times r) > 1
      then do { std_dev \<leftarrow> stdev (response_times r);
                Some (if std_dev > avg * 0.5
                      then b3 @ [''HIGH_VARIABILITY: Response times are inconsistent'']
                      else b3) }
      else Some b3) = Some b4"
    by blast
  have "identify_bottlenecks pr r =
      Some (let bs = (if sublist (lit ''Connection'')
                          (str_dict pr (foldl count_error [] (errors r)))
                      then b4 @ [?C] else b4)
            in if bs = []
               then bs @ [''NO_MAJOR_BOTTLENECKS: System performing within acceptable limits'']
               else bs)"
    unfolding identify_bottlenecks_def Let_def
    using assms(1) avg sr b4(2)
    by (simp only: if_False bind.bind_lunit b1_def [symmetric] b2_def [symmetric]
        b3_def [symmetric])
  with b4(1) show ?thesis by blast
qed

lemma record_all_nonempty:
  "outcomes \<noteq> [] \<Longrightarrow>
   response_times (finish_run t1 (record_all (TestReport_init t0) outcomes)) \<noteq> [] \<and>
   total_requests (finish_run t1 (record_all (TestReport_init t0) outcomes)) \<noteq> 0"
proof (induction outcomes rule: rev_induct)
  case Nil
  then show ?case by simp
next
  case (snoc x xs)
  have "report_inv (record_all (TestReport_init t0) (xs @ [x]))"
    by (simp add: report_inv_record_all report_inv_init)
  then show ?case
    by (simp add: finish_run_def finalize_report_def Let_def report_inv_def
        record_all_snoc update_report_fields)
qed

lemma connection_tag_exact:
  assumes "response_times r \<noteq> []" and "total_requests r \<noteq> 0"
  shows "\<exists>bs. identify_bottlenecks pr r = Some bs \<and>
           (''CONNECTION_ISSUES: Server rejecting connections'' \<in> set bs \<longleftrightarrow>
            (\<exists>e\<in>set (errors r). sublist (lit ''Connection'') e))"
proof -
  from identify_bottlenecks_shape [OF assms, of pr]
  obtain pre where pre: "''CONNECTION_ISSUES: Server rejecting connections'' \<notin> set pre"
    and res: "identify_bottlenecks pr r =
             Some (let bs = (if sublist (lit ''Connection'')
                                 (str_dict pr (foldl count_error [] (errors r)))
                             then pre @ [''CONNECTION_ISSUES: Server rejecting connections'']
                             else pre)
                   in if bs = []
                      then bs @ [''NO_MAJOR_BOTTLENECKS: System performing within acceptable limits'']
                      else bs)"
    by blast
  show ?thesis
  proof (cases "\<exists>e\<in>set (errors r). sublist (lit ''Connection'') e")
    case True
    then have "sublist (lit ''Connection'') (str_dict pr (foldl count_error [] (errors r)))"
      by (simp only: connection_test)
    with res True show ?thesis by simp
  next
    case False
    then have "\<not> sublist (lit ''Connection'') (str_dict pr (foldl count_error [] (errors r)))"
      by (simp only: connection_test) simp
    with res False pre show ?thesis by (cases "pre = []") simp_all
  qed
qed

text \<open>
  Claim C8. For every report with at least one recorded response time,
  \<^verbatim>\<open>identify_bottlenecks\<close> returns a list that includes the \<open>CONNECTION_ISSUES\<close> tag
  exactly when some string of the report's \<open>errors\<close> list contains \<open>Connection\<close> as a
  substring: the detour through the rendering of the error-count dictionary adds no
  case and loses none, whatever code points the interpreter takes as printable. The
  first part is about any report with a response time and a non-zero total (with a zero
  total the success rate raises \<^verbatim>\<open>ZeroDivisionError\<close>); the second about every report a
  driver returns after recording at least one outcome.
\<close>

theorem connection_issues_iff:
  "(response_times r \<noteq> [] \<and> total_requests r \<noteq> 0 \<longrightarrow>
      (\<exists>bs. identify_bottlenecks pr r = Some bs \<and>
         (''CONNECTION_ISSUES: Server rejecting connections'' \<in> set bs \<longleftrightarrow>
          (\<exists>e\<in>set (errors r). sublist (lit ''Connection'') e)))) \<and>
   (outcomes \<noteq> [] \<longrightarrow>
      (\<exists>bs. identify_bottlenecks pr
              (finish_run now (record_all (TestReport_init created) outcomes)) = Some bs \<and>
         (''CONNECTION_ISSUES: Server rejecting connections'' \<in> set bs \<longleftrightarrow>
          (\<exists>e\<in>set (errors (finish_run now (record_all (TestReport_init created) outcomes))).
              sublist (lit ''Connection'') e))))"
  using connection_tag_exact record_all_nonempty by blast

theorem connection_issues_iff_witness:
  "(\<exists>bs. identify_bottlenecks (\<lambda>c. False)
           (finish_run 2 (record_all (TestReport_init 0)
              [(outcome 0 1 1)\<lparr>error := lit ''Connection refused''\<rparr>])) = Some bs \<and>
         ''CONNECTION_ISSUES: Server rejecting connections'' \<in> set bs) \<and>
   (\<exists>bs. identify_bottlenecks (\<lambda>c. False)
           (finish_run 2 (record_all (TestReport_init 0)
              [(outcome 0 1 1)\<lparr>error := lit ''timed out''\<rparr>])) = Some bs \<and>
         ''CONNECTION_ISSUES: Server rejecting connections'' \<notin> set bs)"
proof -
  let ?x = "(outcome 0 1 1)\<lparr>error := lit ''Connection refused''\<rparr>"
  let ?y = "(outcome 0 1 1)\<lparr>error := lit ''timed out''\<rparr>"
  have ex: "errors (finish_run 2 (record_all (TestReport_init 0) [?x])) =
              [lit ''Connection refused'']"
    and ey: "errors (finish_run 2 (record_all (TestReport_init 0) [?y])) = [lit ''timed out'']"
    by (simp_all add: finish_run_def finalize_report_def Let_def record_all_def
        update_report_fields TestReport_init_def outcome_def)
  have sx: "sublist (lit ''Connection'') (lit ''Connection refused'')"
    and sy: "\<not> sublist (lit ''Connection'') (lit ''timed out'')"
    by (simp_all add: lit_def sublist_code)
  from connection_issues_iff [where r = "TestReport_init 0" and outcomes = "[?x]"
      and pr = "\<lambda>c. False" and now = 2 and created = 0] ex sx
  have a: "\<exists>bs. identify_bottlenecks (\<lambda>c. False)
           (finish_run 2 (record_all (TestReport_init 0) [?x])) = Some bs \<and>
         ''CONNECTION_ISSUES: Server rejecting connections'' \<in> set bs"
    by simp
  from connection_issues_iff [where r = "TestReport_init 0" and outcomes = "[?y]"
      and pr = "\<lambda>c. False" and now = 2 and created = 0] ey sy
  have b: "\<exists>bs. identify_bottlenecks (\<lambda>c. False)
           (finish_run 2 (record_all (TestReport_init 0) [?y])) = Some bs \<and>
         ''CONNECTION_ISSUES: Server rejecting connections'' \<notin> set bs"
    by simp
  from a b show ?thesis ..
qed

text \<open>
  Claim C9. On a report with no recorded response times the analyzer returns its
  no-data sentinels and raises nothing: \<^verbatim>\<open>identify_bottlenecks\<close> returns the list with the
  single element \<open>No response data available\<close>, and \<^verbatim>\<open>capacity_recommendations\<close> returns
  the dictionary with the single item \<open>error: No data available\<close>, for every test-type
  label.
\<close>

theorem no_data_sentinels:
  assumes "response_times r = []"
  shows "identify_bottlenecks pr r = Some [''No response data available''] \<and>
         capacity_recommendations r test_type = Some [(''error'', Str ''No data available'')]"
  using assms by (simp add: identify_bottlenecks_def capacity_recommendations_def)

theorem no_data_sentinels_witness:
  "response_times (TestReport_init 0) = [] \<and>
   identify_bottlenecks (\<lambda>c. False) (TestReport_init 0) =
     Some [''No response data available''] \<and>
   capacity_recommendations (TestReport_init 0) ''concurrent'' =
     Some [(''error'', Str ''No data available'')]"
proof -
  have h: "response_times (TestReport_init 0) = []"
    by (simp add: TestReport_init_def)
  from no_data_sentinels [OF h, of "\<lambda>c. False" "''concurrent''"] h
  show ?thesis by simp
qed

section \<open>Properties of the ramp\<close>

text \<open>
  Claim C6 says that the concurrency level of ramp step \<open>s\<close> is
  \<open>max(1, floor(max_users / ramp_duration \<times> (s + 1)))\<close>, that the levels never decrease and
  that the last step, \<open>s = ramp_duration - 1\<close>, runs exactly \<open>max_users\<close> users; for
  \<open>max_users = 4\<close> and \<open>ramp_duration = 4\<close> the levels are \<open>[1, 2, 3, 4]\<close>. The code meets the
  example, but not the claim: with \<open>max_users = 123\<close> and \<open>ramp_duration = 30\<close>, the call
  that \<^verbatim>\<open>main\<close> makes for \<^verbatim>\<open>--workers 123\<close>, the quotient \<open>123 / 30\<close> is rounded down to
  a binary64 number, its product with 30 is below 123, and the last step runs 122
  users where the formula gives 123.
\<close>

theorem ramp_last_step_below_max_users:
  "int_truediv 123 30 = Some (4616189618054758, 1125899906842624) \<and>
   float_mul (4616189618054758, 1125899906842624) (float_of_int 30) =
     (8655355533852671, 70368744177664) \<and>
   8655355533852671 < 123 * (70368744177664 :: int) \<and>
   map_option (\<lambda>levels. levels ! 29) (ramp_levels 123 30) = Some 122 \<and>
   spec_level 123 30 29 = 123 \<and>
   ramp_levels 4 4 = Some [1, 2, 3, 4] \<and>
   map (spec_level 4 4) [0, 1, 2, 3] = [1, 2, 3, 4]"
  by code_simp

section \<open>Properties of binary64 rounding\<close>

lemma bit_length_nonpos: "n \<le> 0 \<Longrightarrow> bit_length n = 0"
  by (simp add: bit_length.simps)

lemma bit_length_upper: "n < 2 ^ bit_length n"
proof (induction n rule: bit_length.induct)
  case (1 n)
  show ?case
  proof (cases "n \<le> 0")
    case True
    then show ?thesis by (simp add: bit_length.simps)
  next
    case False
    with 1 have "n div 2 < 2 ^ bit_length (n div 2)" by simp
    then have "n < 2 * 2 ^ bit_length (n div 2)" by linarith
    with False show ?thesis by (simp add: bit_length.simps [of n])
  qed
qed

lemma bit_length_lower: "0 < n \<Longrightarrow> 2 ^ (bit_length n - 1) \<le> n"
proof (induction n rule: bit_length.induct)
  case (1 n)
  show ?case
  proof (cases "n div 2 \<le> 0")
    case True
    with "1.prems" have "bit_length n = Suc 0"
      by (simp add: bit_length.simps [of n] bit_length_nonpos)
    with "1.prems" show ?thesis by simp
  next
    case False
    with 1 have ih: "2 ^ (bit_length (n div 2) - 1) \<le> n div 2" by simp
    from False have "bit_length (n div 2) = Suc (bit_length (n div 2) - 1)"
      by (simp add: bit_length.simps [of "n div 2"])
    then have "(2::int) ^ bit_length (n div 2) = 2 * 2 ^ (bit_length (n div 2) - 1)"
      by (metis power_Suc)
    with ih have "(2::int) ^ bit_length (n div 2) \<le> n" by linarith
    with "1.prems" show ?thesis by (simp add: bit_length.simps [of n])
  qed
qed

lemma pow2_pos: "0 < pow2 e"
  by (simp add: pow2_def)

lemma pow2_neg_nat: "pow2 (- int m) = 1 / 2 ^ m"
  by (simp add: pow2_def)

lemma pow2_nat: "pow2 (int m) = 2 ^ m"
  by (simp add: pow2_def)

lemma pow2_powi: "pow2 e = 2 powi e"
  by (simp add: pow2_def power_int_def field_simps)

lemma pow2_diff: "pow2 (a - b) = pow2 a / pow2 b"
  by (simp add: pow2_powi power_int_diff)

lemma binary_exponent_lower:
  assumes "0 < x"
  shows "pow2 (binary_exponent x) \<le> x"
proof (cases "1 \<le> x")
  case True
  then have n: "0 < \<lfloor>x\<rfloor>" by linarith
  then have "0 < bit_length \<lfloor>x\<rfloor>"
    by (simp add: bit_length.simps [of "\<lfloor>x\<rfloor>"])
  then have "int (bit_length \<lfloor>x\<rfloor>) - 1 = int (bit_length \<lfloor>x\<rfloor> - 1)" by simp
  with True have "pow2 (binary_exponent x) = 2 ^ (bit_length \<lfloor>x\<rfloor> - 1)"
    by (simp only: binary_exponent_def if_True pow2_nat)
  also have "\<dots> = of_int (2 ^ (bit_length \<lfloor>x\<rfloor> - 1))" by simp
  also have "\<dots> \<le> of_int \<lfloor>x\<rfloor>"
    using bit_length_lower [OF n] by (simp only: of_int_le_iff)
  also have "\<dots> \<le> x" by simp
  finally show ?thesis .
next
  case False
  let ?c = "\<lceil>1 / x\<rceil>"
  let ?m = "bit_length (?c - 1)"
  from False have e: "pow2 (binary_exponent x) = 1 / 2 ^ ?m"
    by (simp only: binary_exponent_def if_False pow2_neg_nat)
  have "?c - 1 < 2 ^ ?m" by (rule bit_length_upper)
  then have "?c \<le> 2 ^ ?m" by simp
  then have "(of_int ?c :: real) \<le> of_int (2 ^ ?m)" by (simp only: of_int_le_iff)
  then have b: "of_int ?c \<le> (2::real) ^ ?m" by simp
  have a: "1 / x \<le> of_int ?c" by (rule le_of_int_ceiling)
  from a b have "1 / x \<le> 2 ^ ?m" by (rule order_trans)
  with assms have "1 / 2 ^ ?m \<le> x"
    by (simp add: field_simps)
  with e show ?thesis by simp
qed

lemma nearest_even_nonneg: "0 \<le> y \<Longrightarrow> 0 \<le> nearest_even y"
  by (simp add: nearest_even_def Let_def)

lemma nearest_even_pos: "1 \<le> y \<Longrightarrow> 0 < nearest_even y"
proof -
  assume "1 \<le> y"
  then have "1 \<le> \<lfloor>y\<rfloor>" by linarith
  then show ?thesis by (simp add: nearest_even_def Let_def)
qed

lemma round64_nonneg: "0 \<le> x \<Longrightarrow> 0 \<le> round64 x"
  by (simp add: round64_def Let_def nearest_even_nonneg pow2_pos less_imp_le)

lemma round64_pos:
  assumes "1 / 10 \<le> x"
  shows "0 < round64 x"
proof -
  from assms have x: "0 < x" by simp
  define e where "e = max (binary_exponent x) (- 1022) - 52"
  have "1 \<le> x / pow2 e"
  proof (cases "- 1022 \<le> binary_exponent x")
    case True
    with x have e: "e = binary_exponent x - 52" by (simp add: e_def)
    have "pow2 e = pow2 (binary_exponent x) / pow2 52"
      unfolding e by (rule pow2_diff)
    also have "\<dots> \<le> x / pow2 52"
      using binary_exponent_lower [OF x] pow2_pos [of 52] by (simp add: divide_right_mono)
    also have "\<dots> \<le> x" using x by (simp add: pow2_def)
    finally show ?thesis using pow2_pos [of e] by simp
  next
    case False
    with x have e: "e = - 1074" by (simp add: e_def)
    have "pow2 (- 1074) \<le> 1 / 10" by (simp add: pow2_def)
    with assms have "pow2 e \<le> x" unfolding e by simp
    then show ?thesis using pow2_pos [of e] by simp
  qed
  then have "0 < nearest_even (x / pow2 e)" by (rule nearest_even_pos)
  with x pow2_pos [of e] show ?thesis
    by (simp add: round64_def Let_def e_def [symmetric])
qed

lemma round64_zero: "round64 0 = 0"
  by (simp add: round64_def)

section \<open>Properties of the trend analysis\<close>

lemma count_ones: "sum_list (map (\<lambda>r. 1::int) xs) = int (length xs)"
  by (induction xs) simp_all


lemma bucket_metric_of_nonempty:
  "bucket \<noteq> [] \<Longrightarrow> bucket_metric_of bucket = Some (metrics_of bucket)"
  by (simp add: bucket_metric_of_def mean64_def mean_def fdiv_def py_div_def count_ones
      metrics_of_def bucket_latency_def bucket_successes_def)


lemma bucket_metrics_loop_eq:
  "bucket_metrics_loop bs = Some (map metrics_of (filter (\<lambda>b. b \<noteq> []) bs))"
  by (induction bs) (simp_all add: bucket_metric_of_nonempty)


lemma py_nth_first: "xs \<noteq> [] \<Longrightarrow> py_nth xs 0 = Some (hd xs)"
  by (cases xs) (simp_all add: py_nth_def py_index_def)


lemma py_nth_last: "xs \<noteq> [] \<Longrightarrow> py_nth xs (- 1) = Some (last xs)"
proof -
  assume ne: "xs \<noteq> []"
  then have len: "1 \<le> length xs"
    by (cases xs) simp_all
  then have "nat (int (length xs) - 1) = length xs - 1" by simp
  with ne len show ?thesis
    by (simp add: py_nth_def py_index_def last_conv_nth)
qed


lemma py_nth_map_first: "xs \<noteq> [] \<Longrightarrow> py_nth (map g xs) 0 = Some (g (hd xs))"
  by (simp add: py_nth_first hd_map)


lemma py_nth_map_last: "xs \<noteq> [] \<Longrightarrow> py_nth (map g xs) (- 1) = Some (g (last xs))"
  by (simp add: py_nth_last last_map)


lemma bucket_append_in_range:
  "0 \<le> i \<Longrightarrow> i < int (length buckets) \<Longrightarrow>
   \<exists>bs. bucket_append buckets i x = Some bs \<and> length bs = length buckets"
  by (simp add: bucket_append_def py_index_def)


lemma bucket_append_contents:
  assumes "bucket_append buckets i x = Some bs"
    and "\<forall>b\<in>set buckets. set b \<subseteq> S" and "x \<in> S"
  shows "\<forall>b\<in>set bs. set b \<subseteq> S"
proof -
  from assms(1) obtain pos where pos: "py_index (length buckets) i = Some pos"
    and bs: "bs = buckets[pos := buckets ! pos @ [x]]"
    by (auto simp: bucket_append_def)
  from pos have "pos < length buckets"
    by (auto simp: py_index_def split: if_splits)
  with assms(2) have "set (buckets ! pos) \<subseteq> S" by simp
  with assms(3) have new: "set (buckets ! pos @ [x]) \<subseteq> S" by simp
  show ?thesis
  proof
    fix b assume "b \<in> set bs"
    then have "b \<in> insert (buckets ! pos @ [x]) (set buckets)"
      unfolding bs using set_update_subset_insert by fastforce
    with new assms(2) show "set b \<subseteq> S" by auto
  qed
qed


lemma fill_buckets_contents:
  "fill_buckets start bucket_size num_buckets rs buckets = Some bs \<Longrightarrow>
   \<forall>b\<in>set buckets. set b \<subseteq> S \<Longrightarrow> set rs \<subseteq> S \<Longrightarrow> \<forall>b\<in>set bs. set b \<subseteq> S"
proof (induction rs arbitrary: buckets)
  case Nil
  then show ?case by simp
next
  case (Cons r rs)
  from Cons.prems(1) have
    "\<exists>q bs'. bucket_append buckets (min (py_int q) (num_buckets - 1)) r = Some bs' \<and>
       fill_buckets start bucket_size num_buckets rs bs' = Some bs"
    by (simp add: bind_eq_Some_conv Let_def) blast
  then obtain q bs' where
    app: "bucket_append buckets (min (py_int q) (num_buckets - 1)) r = Some bs'"
    and rest: "fill_buckets start bucket_size num_buckets rs bs' = Some bs"
    by blast
  from Cons.prems(3) have r: "r \<in> S" and rs: "set rs \<subseteq> S" by simp_all
  from bucket_append_contents [OF app Cons.prems(2) r]
  have "\<forall>b\<in>set bs'. set b \<subseteq> S" .
  from Cons.IH [OF rest this rs] show ?case .
qed

lemma fill_buckets_total:
  assumes "0 < bucket_size" and "0 < num_buckets"
  shows "length buckets = nat num_buckets \<Longrightarrow> \<forall>r\<in>set rs. start \<le> timestamp r \<Longrightarrow>
         \<exists>bs. fill_buckets start bucket_size num_buckets rs buckets = Some bs \<and>
              length bs = nat num_buckets"
proof (induction rs arbitrary: buckets)
  case Nil
  then show ?case by simp
next
  case (Cons r rs)
  let ?q = "round64 (fsub (timestamp r) start / bucket_size)"
  let ?i = "min (py_int ?q) (num_buckets - 1)"
  from Cons.prems(2) have "0 \<le> fsub (timestamp r) start"
    by (simp add: fsub_def round64_nonneg)
  with assms(1) have "0 \<le> ?q" by (simp add: round64_nonneg)
  then have "0 \<le> py_int ?q" by (simp add: py_int_def)
  with assms(2) Cons.prems(1) have i: "0 \<le> ?i" "?i < int (length buckets)"
    by simp_all
  from bucket_append_in_range [OF i, of r]
  obtain bs where bs: "bucket_append buckets ?i r = Some bs" "length bs = length buckets"
    by blast
  from Cons.IH [of bs] bs(2) Cons.prems
  obtain bs' where "fill_buckets start bucket_size num_buckets rs bs = Some bs'"
    "length bs' = nat num_buckets"
    by auto
  with bs(1) assms(1) show ?case
    by (simp add: fdiv_def py_div_def)
qed


lemma time_buckets_total:
  assumes "1 \<le> duration" and "duration \<le> max_binary64"
    and "\<forall>r\<in>set rs. start \<le> timestamp r"
  shows "\<exists>bs. time_buckets rs start duration = Some bs"
proof -
  let ?n = "min 10 (py_int duration)"
  from assms(1) have "1 \<le> \<lfloor>duration\<rfloor>" by linarith
  with assms(1) have n: "0 < ?n" "?n \<le> 10" by (simp_all add: py_int_def)
  then have nz: "(of_int ?n :: real) \<noteq> 0" by simp
  from n have "0 < (of_int ?n :: real)" "(of_int ?n :: real) \<le> 10" by simp_all
  with assms(1) have "1 / 10 \<le> duration / of_int ?n"
    by (simp add: field_simps)
  then have pos: "0 < round64 (duration / of_int ?n)" by (rule round64_pos)
  from fill_buckets_total [OF pos n(1) _ assms(3), of "replicate (nat ?n) []"]
  obtain bs where
    "fill_buckets start (round64 (duration / of_int ?n)) ?n rs (replicate (nat ?n) []) = Some bs"
    by auto
  with nz assms(1,2) show ?thesis
    by (simp add: time_buckets_def float_to_int_def fdiv_def py_div_def Let_def)
qed


lemma time_buckets_contents:
  assumes "time_buckets rs start duration = Some bs"
  shows "\<forall>b\<in>set bs. set b \<subseteq> set rs"
proof -
  from assms obtain n size where
    "fill_buckets start size (min 10 n) rs (replicate (nat (min 10 n)) []) = Some bs"
    by (auto simp: time_buckets_def bind_eq_Some_conv Let_def)
  then show ?thesis
    by (rule fill_buckets_contents) simp_all
qed


lemma run_start_least:
  assumes "r \<in> set (sort_key timestamp rs)"
  shows "run_start rs \<le> timestamp r"
proof -
  have s: "sorted (map timestamp (sort_key timestamp rs))" by simp
  from assms obtain x xs where c: "sort_key timestamp rs = x # xs"
    by (cases "sort_key timestamp rs") auto
  with s assms show ?thesis
    by (auto simp: run_start_def)
qed

lemma analyze_unfold:
  assumes "all_results \<noteq> []"
  shows "analyze_performance_trends all_results =
     (if run_duration all_results < 1 then Some Insufficient_Data
      else do {
        buckets \<leftarrow> time_buckets (sort_key timestamp all_results) (run_start all_results)
                     (run_duration all_results);
        let filled = filter (\<lambda>b. b \<noteq> []) buckets;
        if length filled < 2 then Some Insufficient_Data
        else Some (Trends
          (latency_trend (bucket_latency (hd filled)) (bucket_latency (last filled)))
          (success_trend (bucket_successes (hd filled)) (bucket_successes (last filled)))
          (map metrics_of filled)
          (bucket_latency (last filled) > fmul (bucket_latency (hd filled)) 2)) })"
proof -
  let ?s = "sort_key timestamp all_results"
  from assms have s: "?s \<noteq> []"
    by (metis length_0_conv length_sort)
  have first: "py_nth ?s 0 = Some (hd ?s)" and lst: "py_nth ?s (- 1) = Some (last ?s)"
    using s by (simp_all add: py_nth_first py_nth_last)
  have d: "fsub (timestamp (last ?s)) (timestamp (hd ?s)) = run_duration all_results"
    and d': "fsub (timestamp (last ?s)) (run_start all_results) = run_duration all_results"
    and st: "timestamp (hd ?s) = run_start all_results"
    by (simp_all add: run_duration_def run_start_def)
  have tail: "\<And>buckets.
      (bucket_metrics_loop buckets \<bind> (\<lambda>bucket_metrics.
         if length bucket_metrics < 2 then Some Insufficient_Data
         else do {
           let response_times = map bucket_avg_response_time bucket_metrics;
           let success_rates = map bucket_success_rate bucket_metrics;
           rt_last \<leftarrow> py_nth response_times (- 1);
           rt_first \<leftarrow> py_nth response_times 0;
           let rt_trend =
             (if rt_last > fmul rt_first 1.5 then ''degrading''
              else if rt_last < fmul rt_first (round64 0.8) then ''improving''
              else ''stable'');
           sr_last \<leftarrow> py_nth success_rates (- 1);
           sr_first \<leftarrow> py_nth success_rates 0;
           let sr_trend =
             (if sr_last < fsub sr_first 10 then ''degrading''
              else if sr_last > fadd sr_first 10 then ''improving''
              else ''stable'');
           Some (Trends rt_trend sr_trend bucket_metrics (rt_last > fmul rt_first 2)) })) =
      (let filled = filter (\<lambda>b. b \<noteq> []) buckets
       in if length filled < 2 then Some Insufficient_Data
          else Some (Trends
            (latency_trend (bucket_latency (hd filled)) (bucket_latency (last filled)))
            (success_trend (bucket_successes (hd filled)) (bucket_successes (last filled)))
            (map metrics_of filled)
            (bucket_latency (last filled) > fmul (bucket_latency (hd filled)) 2)))"
  proof -
    fix buckets :: "TestResult list list"
    let ?f = "filter (\<lambda>b. b \<noteq> []) buckets"
    show "?thesis buckets"
    proof (cases "length ?f < 2")
      case True
      then show ?thesis
        by (simp add: bucket_metrics_loop_eq Let_def)
    next
      case False
      then have f: "?f \<noteq> []" by auto
      have nth:
        "py_nth (map bucket_avg_response_time (map metrics_of ?f)) (- 1) =
           Some (bucket_latency (last ?f))"
        "py_nth (map bucket_avg_response_time (map metrics_of ?f)) 0 =
           Some (bucket_latency (hd ?f))"
        "py_nth (map bucket_success_rate (map metrics_of ?f)) (- 1) =
           Some (bucket_successes (last ?f))"
        "py_nth (map bucket_success_rate (map metrics_of ?f)) 0 =
           Some (bucket_successes (hd ?f))"
        using f by (simp_all add: py_nth_map_first py_nth_map_last last_map hd_map
            metrics_of_def del: map_map)
      from False show ?thesis
        by (simp add: bucket_metrics_loop_eq Let_def nth latency_trend_def
            success_trend_def del: map_map)
    qed
  qed
  show ?thesis
    unfolding analyze_performance_trends_def Let_def
    using assms first lst
    by (simp only: if_False bind.bind_lunit d d' st tail [unfolded Let_def])
qed

lemma analyze_with_buckets:
  assumes "all_results \<noteq> []" and "1 \<le> run_duration all_results"
    and "run_duration all_results \<le> max_binary64"
  shows "\<exists>buckets.
     time_buckets (sort_key timestamp all_results) (run_start all_results)
       (run_duration all_results) = Some buckets \<and>
     analyze_performance_trends all_results =
       (if length (filter (\<lambda>b. b \<noteq> []) buckets) < 2 then Some Insufficient_Data
        else Some (Trends
          (latency_trend (bucket_latency (hd (filter (\<lambda>b. b \<noteq> []) buckets)))
             (bucket_latency (last (filter (\<lambda>b. b \<noteq> []) buckets))))
          (success_trend (bucket_successes (hd (filter (\<lambda>b. b \<noteq> []) buckets)))
             (bucket_successes (last (filter (\<lambda>b. b \<noteq> []) buckets))))
          (map metrics_of (filter (\<lambda>b. b \<noteq> []) buckets))
          (bucket_latency (last (filter (\<lambda>b. b \<noteq> []) buckets)) >
             fmul (bucket_latency (hd (filter (\<lambda>b. b \<noteq> []) buckets))) 2)))"
proof -
  have "\<forall>r\<in>set (sort_key timestamp all_results). run_start all_results \<le> timestamp r"
    by (simp add: run_start_least del: set_sort)
  from time_buckets_total [OF assms(2,3) this]
  obtain buckets where tb: "time_buckets (sort_key timestamp all_results)
      (run_start all_results) (run_duration all_results) = Some buckets"
    by blast
  from assms(2) have "\<not> run_duration all_results < 1" by simp
  with tb show ?thesis
    by (simp add: analyze_unfold [OF assms(1)] Let_def)
qed

lemma trends_metrics_origin:
  assumes "analyze_performance_trends all_results = Some (Trends rt sr ms pd)"
  shows "\<exists>buckets. (\<forall>b\<in>set buckets. set b \<subseteq> set all_results) \<and>
           ms = map metrics_of (filter (\<lambda>b. b \<noteq> []) buckets)"
proof -
  from assms have ne: "all_results \<noteq> []"
    by (auto simp: analyze_performance_trends_def)
  from assms obtain buckets where
    tb: "time_buckets (sort_key timestamp all_results) (run_start all_results)
           (run_duration all_results) = Some buckets"
    and ms: "ms = map metrics_of (filter (\<lambda>b. b \<noteq> []) buckets)"
    unfolding analyze_unfold [OF ne]
    by (auto simp: bind_eq_Some_conv Let_def split: if_splits)
  from time_buckets_contents [OF tb] have "\<forall>b\<in>set buckets. set b \<subseteq> set all_results"
    by simp
  with ms show ?thesis by blast
qed

lemma no_success_rate_zero:
  assumes "\<forall>r\<in>set b. status_code r \<noteq> 200"
  shows "bucket_success_rate (metrics_of b) = 0"
proof -
  from assms have "filter (\<lambda>r. status_code r = 200) b = []"
    by (auto simp: filter_empty_conv)
  then show ?thesis
    by (simp add: metrics_of_def bucket_successes_def fmul_def round64_zero)
qed

text \<open>Two runs in which the rounding decides the outcome. In the first the last average
  latency is the binary64 number \<^verbatim>\<open>2.4\<close> and the rounded product of \<open>3\<close> and \<^verbatim>\<open>0.8\<close> lies
  above it, so the trend is \<open>improving\<close>. In the second the bucket width is the rounded
  third of \<^verbatim>\<open>3.3\<close>, which equals the second timestamp, so the three results fall into
  three buckets.\<close>

lemma rounding_decides:
  "analyze_performance_trends [outcome 200 3 0, outcome 200 (round64 2.4) 2] =
     Some (Trends ''improving'' ''stable''
       [\<lparr>bucket_avg_response_time = 3, bucket_success_rate = 100, bucket_count = 1\<rparr>,
        \<lparr>bucket_avg_response_time = 5404319552844595 / 2251799813685248,
           bucket_success_rate = 100, bucket_count = 1\<rparr>]
       False)"
  "map_option (map length)
     (time_buckets
        [outcome 200 1 0, outcome 200 3 (4953959590107545 / 4503599627370496),
         outcome 200 (round64 1.55) (round64 3.3)] 0 (round64 3.3)) = Some [1, 1, 1]"
  by code_simp+

text \<open>
  Claim C5, as stated, fails at the boundaries: the code compares strictly. In the first
  run the last bucket's average latency is exactly 1.5 times the first's and its
  success rate exactly 10 points lower; in the second the last bucket's average latency
  is exactly 0.8 times the first's and its success rate exactly 10 points higher. All
  these values and products are binary64 numbers, so nothing is rounded. The claim
  classifies the first run as degrading and the second as improving, in latency and in
  success rate; the code returns \<open>stable\<close> four times.
\<close>

theorem trend_boundary_counterexample:
  "analyze_performance_trends
     [outcome 200 1 0, outcome 500 1 0,
      outcome 200 (3 / 2) 2, outcome 200 (3 / 2) 2, outcome 500 (3 / 2) 2,
      outcome 500 (3 / 2) 2, outcome 500 (3 / 2) 2] =
   Some (Trends ''stable'' ''stable''
     [\<lparr>bucket_avg_response_time = 1, bucket_success_rate = 50, bucket_count = 2\<rparr>,
      \<lparr>bucket_avg_response_time = 3 / 2, bucket_success_rate = 40, bucket_count = 5\<rparr>]
     False) \<and>
   analyze_performance_trends
     [outcome 200 5 0, outcome 500 5 0,
      outcome 200 4 2, outcome 200 4 2, outcome 200 4 2,
      outcome 500 4 2, outcome 500 4 2] =
   Some (Trends ''stable'' ''stable''
     [\<lparr>bucket_avg_response_time = 5, bucket_success_rate = 50, bucket_count = 2\<rparr>,
      \<lparr>bucket_avg_response_time = 4, bucket_success_rate = 60, bucket_count = 5\<rparr>]
     False)"
  by code_simp

text \<open>
  Claim C5, amended. For a result list with at least one result and a run duration, as
  the code computes it, that is finite and at least one second, the time buckets are
  built without an exception, and when at least two of them are not empty
  \<^verbatim>\<open>analyze_performance_trends\<close> compares the first and the last of these, strictly and
  on the binary64 values it computes. The latency trend is \<open>degrading\<close> if the last
  average latency is greater than the rounded product of the first and 1.5, else
  \<open>improving\<close> if it is less than the rounded product of the first and the binary64
  number \<^verbatim>\<open>0.8\<close>, else \<open>stable\<close>. The success-rate trend is \<open>degrading\<close> if the last
  success rate is less than the rounded difference of the first and 10, else
  \<open>improving\<close> if it is greater than the rounded sum of the first and 10, else \<open>stable\<close>.
  And \<open>performance_degradation\<close> is set exactly when the last average latency is greater
  than the rounded double of the first.
\<close>

theorem trend_classification:
  assumes "all_results \<noteq> []" and "1 \<le> run_duration all_results"
    and "run_duration all_results \<le> max_binary64"
  shows "\<exists>buckets.
     time_buckets (sort_key timestamp all_results) (run_start all_results)
       (run_duration all_results) = Some buckets \<and>
     (2 \<le> length (filter (\<lambda>b. b \<noteq> []) buckets) \<longrightarrow>
        analyze_performance_trends all_results =
          Some (Trends
            (latency_trend (bucket_latency (hd (filter (\<lambda>b. b \<noteq> []) buckets)))
               (bucket_latency (last (filter (\<lambda>b. b \<noteq> []) buckets))))
            (success_trend (bucket_successes (hd (filter (\<lambda>b. b \<noteq> []) buckets)))
               (bucket_successes (last (filter (\<lambda>b. b \<noteq> []) buckets))))
            (map metrics_of (filter (\<lambda>b. b \<noteq> []) buckets))
            (bucket_latency (last (filter (\<lambda>b. b \<noteq> []) buckets)) >
               fmul (bucket_latency (hd (filter (\<lambda>b. b \<noteq> []) buckets))) 2)))"
  using analyze_with_buckets [OF assms] by auto

theorem trend_classification_witness:
  "[outcome 200 1 0, outcome 500 3 2] \<noteq> [] \<and>
   1 \<le> run_duration [outcome 200 1 0, outcome 500 3 2] \<and>
   run_duration [outcome 200 1 0, outcome 500 3 2] \<le> max_binary64 \<and>
   analyze_performance_trends [outcome 200 1 0, outcome 500 3 2] =
      Some (Trends ''degrading'' ''degrading''
        [\<lparr>bucket_avg_response_time = 1, bucket_success_rate = 100, bucket_count = 1\<rparr>,
         \<lparr>bucket_avg_response_time = 3, bucket_success_rate = 0, bucket_count = 1\<rparr>]
        True)"
proof -
  let ?R = "[outcome 200 1 0, outcome 500 3 2]"
  have h1: "?R \<noteq> []" by simp
  have d: "run_duration ?R = 2" by code_simp
  have h2: "1 \<le> run_duration ?R" and h3: "run_duration ?R \<le> max_binary64"
    unfolding d by (simp_all add: max_binary64_def)
  have tb: "time_buckets (sort_key timestamp ?R) (run_start ?R) (run_duration ?R) =
              Some [[outcome 200 1 0], [outcome 500 3 2]]"
    by code_simp
  have vals: "latency_trend (bucket_latency [outcome 200 1 0])
      (bucket_latency [outcome 500 3 2]) = ''degrading''"
    "success_trend (bucket_successes [outcome 200 1 0])
      (bucket_successes [outcome 500 3 2]) = ''degrading''"
    "(bucket_latency [outcome 500 3 2] > fmul (bucket_latency [outcome 200 1 0]) 2) = True"
    "map metrics_of [[outcome 200 1 0], [outcome 500 3 2]] =
       [\<lparr>bucket_avg_response_time = 1, bucket_success_rate = 100, bucket_count = 1\<rparr>,
        \<lparr>bucket_avg_response_time = 3, bucket_success_rate = 0, bucket_count = 1\<rparr>]"
    by code_simp+
  from trend_classification [OF h1 h2 h3] tb
  have "analyze_performance_trends ?R =
      Some (Trends
        (latency_trend (bucket_latency [outcome 200 1 0]) (bucket_latency [outcome 500 3 2]))
        (success_trend (bucket_successes [outcome 200 1 0])
           (bucket_successes [outcome 500 3 2]))
        (map metrics_of [[outcome 200 1 0], [outcome 500 3 2]])
        (bucket_latency [outcome 500 3 2] > fmul (bucket_latency [outcome 200 1 0]) 2))"
    by simp
  then show ?thesis
    unfolding vals using h1 h2 h3 by simp
qed

section \<open>Properties of the two success rates\<close>

lemma record_all_all_completed:
  "\<forall>x\<in>set xs. status_code x \<noteq> 0 \<Longrightarrow>
   successful_requests (record_all r xs) = successful_requests r + int (length xs) \<and>
   total_requests (record_all r xs) = total_requests r + int (length xs)"
  by (induction xs rule: rev_induct)
     (simp_all add: record_all_def update_report_fields)

lemma all_404_aggregate:
  assumes "outcomes \<noteq> []" and "\<forall>y\<in>set outcomes. status_code y = 404"
  shows "success_rate_of (record_all (TestReport_init now) outcomes) = Some 100"
proof -
  from assms(2) have c: "\<forall>y\<in>set outcomes. status_code y \<noteq> 0" by auto
  from record_all_all_completed [OF c, of "TestReport_init now"]
  have "successful_requests (record_all (TestReport_init now) outcomes) =
          int (length outcomes)"
    and "total_requests (record_all (TestReport_init now) outcomes) =
          int (length outcomes)"
    by (simp_all add: TestReport_init_def)
  with assms(1) show ?thesis
    by (simp add: success_rate_of_def py_div_def)
qed

lemma all_404_trend_rates:
  assumes "\<forall>y\<in>set outcomes. status_code y = 404"
    and "analyze_performance_trends outcomes = Some (Trends rt sr ms pd)"
  shows "\<forall>m\<in>set ms. bucket_success_rate m = 0"
proof -
  from trends_metrics_origin [OF assms(2)] obtain buckets where
    sub: "\<forall>b\<in>set buckets. set b \<subseteq> set outcomes"
    and ms: "ms = map metrics_of (filter (\<lambda>b. b \<noteq> []) buckets)"
    by blast
  show ?thesis
  proof
    fix m assume "m \<in> set ms"
    with ms obtain b where b: "b \<in> set buckets" "m = metrics_of b" by auto
    with sub assms(1) have "\<forall>r\<in>set b. status_code r \<noteq> 200" by fastforce
    with b(2) show "bucket_success_rate m = 0"
      by (simp add: no_success_rate_zero)
  qed
qed

text \<open>
  Claim C7. The two notions of success differ and each is exact. \<^verbatim>\<open>_update_report\<close>
  increments \<open>failed_requests\<close> and appends the outcome's error string exactly when the
  status code is 0, and increments \<open>successful_requests\<close> for every other status code,
  4xx and 5xx included. \<^verbatim>\<open>analyze_performance_trends\<close>, whenever it reaches its bucket
  metrics, returns for each non-empty time bucket a success rate computed from the
  number of its outcomes whose status code is exactly 200. So for outcomes that are all
  404 the aggregator's success rate is 100, and every bucket success rate that
  \<^verbatim>\<open>analyze_performance_trends\<close> returns is 0.
\<close>

theorem success_notions:
  "(status_code x = 0 \<longrightarrow>
      failed_requests (update_report r x) = failed_requests r + 1 \<and>
      errors (update_report r x) = errors r @ [error x] \<and>
      successful_requests (update_report r x) = successful_requests r) \<and>
   (status_code x \<noteq> 0 \<longrightarrow>
      successful_requests (update_report r x) = successful_requests r + 1 \<and>
      failed_requests (update_report r x) = failed_requests r \<and>
      errors (update_report r x) = errors r) \<and>
   (all_results \<noteq> [] \<and> 1 \<le> run_duration all_results \<and>
    run_duration all_results \<le> max_binary64 \<longrightarrow>
      (\<exists>buckets.
         time_buckets (sort_key timestamp all_results) (run_start all_results)
           (run_duration all_results) = Some buckets \<and>
         (2 \<le> length (filter (\<lambda>b. b \<noteq> []) buckets) \<longrightarrow>
            (\<exists>rt sr pd. analyze_performance_trends all_results =
               Some (Trends rt sr (map metrics_of (filter (\<lambda>b. b \<noteq> []) buckets)) pd)) \<and>
            (\<forall>b\<in>set (filter (\<lambda>b. b \<noteq> []) buckets).
               bucket_success_rate (metrics_of b) =
                 fmul (round64 (real (length (filter (\<lambda>r. status_code r = 200) b)) /
                                real (length b))) 100)))) \<and>
   (outcomes \<noteq> [] \<and> (\<forall>y\<in>set outcomes. status_code y = 404) \<longrightarrow>
      success_rate_of (record_all (TestReport_init now) outcomes) = Some 100 \<and>
      (\<forall>rt sr ms pd. analyze_performance_trends outcomes = Some (Trends rt sr ms pd) \<longrightarrow>
         (\<forall>m\<in>set ms. bucket_success_rate m = 0)))"
proof -
  have step: "(status_code x = 0 \<longrightarrow>
      failed_requests (update_report r x) = failed_requests r + 1 \<and>
      errors (update_report r x) = errors r @ [error x] \<and>
      successful_requests (update_report r x) = successful_requests r) \<and>
   (status_code x \<noteq> 0 \<longrightarrow>
      successful_requests (update_report r x) = successful_requests r + 1 \<and>
      failed_requests (update_report r x) = failed_requests r \<and>
      errors (update_report r x) = errors r)"
    by (simp add: update_report_fields)
  have trend: "all_results \<noteq> [] \<and> 1 \<le> run_duration all_results \<and>
    run_duration all_results \<le> max_binary64 \<longrightarrow>
      (\<exists>buckets.
         time_buckets (sort_key timestamp all_results) (run_start all_results)
           (run_duration all_results) = Some buckets \<and>
         (2 \<le> length (filter (\<lambda>b. b \<noteq> []) buckets) \<longrightarrow>
            (\<exists>rt sr pd. analyze_performance_trends all_results =
               Some (Trends rt sr (map metrics_of (filter (\<lambda>b. b \<noteq> []) buckets)) pd)) \<and>
            (\<forall>b\<in>set (filter (\<lambda>b. b \<noteq> []) buckets).
               bucket_success_rate (metrics_of b) =
                 fmul (round64 (real (length (filter (\<lambda>r. status_code r = 200) b)) /
                                real (length b))) 100)))"
  proof
    assume h: "all_results \<noteq> [] \<and> 1 \<le> run_duration all_results \<and>
      run_duration all_results \<le> max_binary64"
    from analyze_with_buckets [of all_results] h
    obtain buckets where tb: "time_buckets (sort_key timestamp all_results)
        (run_start all_results) (run_duration all_results) = Some buckets"
      and an: "analyze_performance_trends all_results =
       (if length (filter (\<lambda>b. b \<noteq> []) buckets) < 2 then Some Insufficient_Data
        else Some (Trends
          (latency_trend (bucket_latency (hd (filter (\<lambda>b. b \<noteq> []) buckets)))
             (bucket_latency (last (filter (\<lambda>b. b \<noteq> []) buckets))))
          (success_trend (bucket_successes (hd (filter (\<lambda>b. b \<noteq> []) buckets)))
             (bucket_successes (last (filter (\<lambda>b. b \<noteq> []) buckets))))
          (map metrics_of (filter (\<lambda>b. b \<noteq> []) buckets))
          (bucket_latency (last (filter (\<lambda>b. b \<noteq> []) buckets)) >
             fmul (bucket_latency (hd (filter (\<lambda>b. b \<noteq> []) buckets))) 2)))"
      by blast
    have rate: "\<forall>b\<in>set (filter (\<lambda>b. b \<noteq> []) buckets).
        bucket_success_rate (metrics_of b) =
          fmul (round64 (real (length (filter (\<lambda>r. status_code r = 200) b)) /
                         real (length b))) 100"
      by (simp add: metrics_of_def bucket_successes_def)
    from tb an rate show "\<exists>buckets.
         time_buckets (sort_key timestamp all_results) (run_start all_results)
           (run_duration all_results) = Some buckets \<and>
         (2 \<le> length (filter (\<lambda>b. b \<noteq> []) buckets) \<longrightarrow>
            (\<exists>rt sr pd. analyze_performance_trends all_results =
               Some (Trends rt sr (map metrics_of (filter (\<lambda>b. b \<noteq> []) buckets)) pd)) \<and>
            (\<forall>b\<in>set (filter (\<lambda>b. b \<noteq> []) buckets).
               bucket_success_rate (metrics_of b) =
                 fmul (round64 (real (length (filter (\<lambda>r. status_code r = 200) b)) /
                                real (length b))) 100))"
      by (intro exI [of _ buckets]) simp
  qed
  have all404: "outcomes \<noteq> [] \<and> (\<forall>y\<in>set outcomes. status_code y = 404) \<longrightarrow>
      success_rate_of (record_all (TestReport_init now) outcomes) = Some 100 \<and>
      (\<forall>rt sr ms pd. analyze_performance_trends outcomes = Some (Trends rt sr ms pd) \<longrightarrow>
         (\<forall>m\<in>set ms. bucket_success_rate m = 0))"
    using all_404_aggregate all_404_trend_rates by blast
  from step trend all404 show ?thesis by blast
qed

theorem success_notions_witness:
  "success_rate_of (record_all (TestReport_init 0) [outcome 404 1 0, outcome 404 1 2]) =
     Some 100 \<and>
   analyze_performance_trends [outcome 404 1 0, outcome 404 1 2] =
     Some (Trends ''stable'' ''stable''
       [\<lparr>bucket_avg_response_time = 1, bucket_success_rate = 0, bucket_count = 1\<rparr>,
        \<lparr>bucket_avg_response_time = 1, bucket_success_rate = 0, bucket_count = 1\<rparr>]
       False) \<and>
   (\<exists>rt sr pd. analyze_performance_trends [outcome 200 1 0, outcome 200 1 0, outcome 500 1 2] =
      Some (Trends rt sr
        [\<lparr>bucket_avg_response_time = 1, bucket_success_rate = 100, bucket_count = 2\<rparr>,
         \<lparr>bucket_avg_response_time = 1, bucket_success_rate = 0, bucket_count = 1\<rparr>] pd)) \<and>
   failed_requests (update_report (TestReport_init 0) (outcome 0 1 1)) = 1 \<and>
   successful_requests (update_report (TestReport_init 0) (outcome 500 1 1)) = 1"
proof -
  let ?W = "[outcome 404 1 0, outcome 404 1 2]"
  let ?V = "[outcome 200 1 0, outcome 200 1 0, outcome 500 1 2]"
  have w: "?W \<noteq> [] \<and> (\<forall>y\<in>set ?W. status_code y = 404)"
    by (simp add: outcome_def)
  have an: "analyze_performance_trends ?W =
     Some (Trends ''stable'' ''stable''
       [\<lparr>bucket_avg_response_time = 1, bucket_success_rate = 0, bucket_count = 1\<rparr>,
        \<lparr>bucket_avg_response_time = 1, bucket_success_rate = 0, bucket_count = 1\<rparr>]
       False)"
    by code_simp
  have dv: "run_duration ?V = 2" by code_simp
  have v: "?V \<noteq> [] \<and> 1 \<le> run_duration ?V \<and> run_duration ?V \<le> max_binary64"
    unfolding dv by (simp add: max_binary64_def)
  have tb: "time_buckets (sort_key timestamp ?V) (run_start ?V) (run_duration ?V) =
      Some [[outcome 200 1 0, outcome 200 1 0], [outcome 500 1 2]]"
    by code_simp
  have ms: "map metrics_of [[outcome 200 1 0, outcome 200 1 0], [outcome 500 1 2]] =
      [\<lparr>bucket_avg_response_time = 1, bucket_success_rate = 100, bucket_count = 2\<rparr>,
       \<lparr>bucket_avg_response_time = 1, bucket_success_rate = 0, bucket_count = 1\<rparr>]"
    by code_simp
  note inst = success_notions [where x = "outcome 0 1 1" and r = "TestReport_init 0"
      and all_results = ?V and outcomes = ?W and now = 0]
    success_notions [where x = "outcome 500 1 1" and r = "TestReport_init 0"
      and all_results = ?V and outcomes = ?W and now = 0]
  from inst(1) w have a: "success_rate_of (record_all (TestReport_init 0) ?W) = Some 100"
    by blast
  from inst(1) v tb have "\<exists>rt sr pd. analyze_performance_trends ?V =
      Some (Trends rt sr
        (map metrics_of [[outcome 200 1 0, outcome 200 1 0], [outcome 500 1 2]]) pd)"
    by simp
  then have b: "\<exists>rt sr pd. analyze_performance_trends ?V =
      Some (Trends rt sr
        [\<lparr>bucket_avg_response_time = 1, bucket_success_rate = 100, bucket_count = 2\<rparr>,
         \<lparr>bucket_avg_response_time = 1, bucket_success_rate = 0, bucket_count = 1\<rparr>] pd)"
    unfolding ms .
  from inst(1) have c: "failed_requests (update_report (TestReport_init 0) (outcome 0 1 1)) = 1"
    by (simp add: outcome_def TestReport_init_def)
  from inst(2) have d:
    "successful_requests (update_report (TestReport_init 0) (outcome 500 1 1)) = 1"
    by (simp add: outcome_def TestReport_init_def)
  from a an b c d show ?thesis by blast
qed

end
